theory Spec2Isabelle
  imports Main
begin

text \<open>
  A shallow embedding of the ingestion-and-delivery pipeline of the e-mail to Telegram
  notifier: the store (db.py), the classifier (parser.py), the account watcher
  (imap_watcher.py) and the dispatcher and acknowledgment handler (bot.py). The
  definitions come first, in the order of the source files; the properties follow.

  Python strings are modelled as \<open>string\<close>: a list of 8-bit characters, each standing for
  one of the first 256 code points, so \<open>length\<close> is Python's \<^verbatim>\<open>len\<close>. Text with other
  code points is outside the model.

  What the program takes from libraries is a parameter of the function that uses it:
  \<open>sha256\<close> for \<^verbatim>\<open>hashlib.sha256(...).hexdigest()\<close>, \<open>dumps\<close> and \<open>loads\<close> for
  \<^verbatim>\<open>json.dumps\<close> and \<^verbatim>\<open>json.loads\<close>, the answers of the IMAP server and of Telegram.
\<close>

section \<open>The store (db.py)\<close>

text \<open>
  The three tables of \<^verbatim>\<open>EmailDatabase.init_database\<close>, one record per row, each table a
  list of rows in rowid order (the order SQLite scans a table in). A nullable column is an
  \<open>option\<close>, \<open>None\<close> for NULL. \<open>CURRENT_TIMESTAMP\<close> is a parameter \<open>now\<close> of the
  operation that writes it. Every \<open>INTEGER PRIMARY KEY AUTOINCREMENT\<close> table has its
  entry of \<open>sqlite_sequence\<close>: the largest rowid the table ever held.

  The store is taken to be available: \<^verbatim>\<open>sqlite3\<close> raising (a locked or unreadable file) is
  outside the model, so the \<^verbatim>\<open>except Exception\<close> branches of db.py, which only such a
  failure reaches, have no counterpart here. Each method opens its own connection, runs
  its statements and commits; a method is one step on the state \<open>database\<close>.
\<close>

type_synonym timestamp = nat

record email_row =
  e_id :: nat
  e_message_id :: string
  e_email_account :: string
  e_sender :: string
  e_subject :: string
  e_body_preview :: string
  e_received_date :: timestamp
  e_created_at :: timestamp
  e_email_hash :: string

record group_row =
  g_id :: nat
  g_chat_id :: int
  g_chat_title :: string
  g_is_active :: bool
  g_filter_accounts :: "string option"
  g_added_at :: timestamp
  g_added_by :: int
  g_updated_at :: timestamp

record notification_row =
  n_id :: nat
  n_email_id :: nat
  n_group_id :: nat
  n_telegram_message_id :: "int option"
  n_is_handled :: bool
  n_handled_at :: "timestamp option"
  n_handled_by :: "int option"
  n_created_at :: timestamp

record database =
  emails :: "email_row list"
  groups :: "group_row list"
  email_notifications :: "notification_row list"
  emails_seq :: nat
  groups_seq :: nat
  email_notifications_seq :: nat

text \<open>The rowid an AUTOINCREMENT table gives its next row: one more than the largest
  rowid it ever held, and than every rowid it holds.\<close>

definition next_rowid :: "nat \<Rightarrow> nat list \<Rightarrow> nat" where
  "next_rowid seq ids = Suc (fold max ids seq)"

subsection \<open>Messages\<close>

text \<open>\<^verbatim>\<open>content = f"{message_id}|{sender}|{subject}"\<close>, hashed.\<close>

definition generate_email_hash ::
    "(string \<Rightarrow> string) \<Rightarrow> string \<Rightarrow> string \<Rightarrow> string \<Rightarrow> string" where
  "generate_email_hash sha256 message_id sender subject =
     sha256 (message_id @ ''|'' @ sender @ ''|'' @ subject)"

text \<open>\<^verbatim>\<open>SELECT COUNT(*) FROM emails WHERE email_hash = ? OR message_id = ?\<close>, positive.\<close>

definition email_exists ::
    "(string \<Rightarrow> string) \<Rightarrow> database \<Rightarrow> string \<Rightarrow> string \<Rightarrow> string \<Rightarrow> bool" where
  "email_exists sha256 db message_id sender subject =
     (let email_hash = generate_email_hash sha256 message_id sender subject
      in 0 < length (filter (\<lambda>e. e_email_hash e = email_hash \<or> e_message_id e = message_id)
                           (emails db)))"

text \<open>
  \<^verbatim>\<open>SELECT id FROM emails WHERE email_hash = ?\<close>; the first row found is returned when
  there is one, otherwise the row is inserted and \<^verbatim>\<open>cursor.lastrowid\<close> returned.
\<close>

definition add_email ::
    "(string \<Rightarrow> string) \<Rightarrow> database \<Rightarrow> string \<Rightarrow> string \<Rightarrow> string \<Rightarrow> string \<Rightarrow> string
       \<Rightarrow> timestamp \<Rightarrow> timestamp \<Rightarrow> database \<times> nat option" where
  "add_email sha256 db message_id email_account sender subject body_preview received_date now =
     (let email_hash = generate_email_hash sha256 message_id sender subject
      in case find (\<lambda>e. e_email_hash e = email_hash) (emails db) of
           Some existing \<Rightarrow> (db, Some (e_id existing))
         | None \<Rightarrow>
             (let lastrowid = next_rowid (emails_seq db) (map e_id (emails db))
              in (db\<lparr>emails := emails db @
                        [\<lparr>e_id = lastrowid, e_message_id = message_id,
                          e_email_account = email_account, e_sender = sender,
                          e_subject = subject, e_body_preview = body_preview,
                          e_received_date = received_date, e_created_at = now,
                          e_email_hash = email_hash\<rparr>],
                      emails_seq := lastrowid\<rparr>,
                  Some lastrowid)))"

subsection \<open>Destinations\<close>

text \<open>\<^verbatim>\<open>filter_json = json.dumps(filter_accounts) if filter_accounts else None\<close>: the
  argument is \<^verbatim>\<open>None\<close> or a list, and an empty list is falsy too.\<close>

definition filter_json :: "(string list \<Rightarrow> string) \<Rightarrow> string list option \<Rightarrow> string option" where
  "filter_json dumps filter_accounts =
     (case filter_accounts of
        None \<Rightarrow> None
      | Some fs \<Rightarrow> if fs = [] then None else Some (dumps fs))"

text \<open>
  \<^verbatim>\<open>INSERT OR REPLACE INTO groups (chat_id, chat_title, added_by, filter_accounts)\<close>: the
  row that holds the same \<open>chat_id\<close> (the column is UNIQUE) is deleted, and the new row
  is inserted with a rowid of its own and the defaults of the other columns.
\<close>

definition add_group ::
    "(string list \<Rightarrow> string) \<Rightarrow> database \<Rightarrow> int \<Rightarrow> string \<Rightarrow> int \<Rightarrow> string list option
       \<Rightarrow> timestamp \<Rightarrow> database \<times> nat option" where
  "add_group dumps db chat_id chat_title added_by filter_accounts now =
     (let lastrowid = next_rowid (groups_seq db) (map g_id (groups db))
      in (db\<lparr>groups := filter (\<lambda>g. g_chat_id g \<noteq> chat_id) (groups db) @
                [\<lparr>g_id = lastrowid, g_chat_id = chat_id, g_chat_title = chat_title,
                  g_is_active = True,
                  g_filter_accounts = filter_json dumps filter_accounts,
                  g_added_at = now, g_added_by = added_by, g_updated_at = now\<rparr>],
              groups_seq := lastrowid\<rparr>,
          Some lastrowid))"

text \<open>\<^verbatim>\<open>UPDATE groups SET is_active = 0 WHERE chat_id = ?\<close>; returns \<^verbatim>\<open>rowcount > 0\<close>.\<close>

definition remove_group :: "database \<Rightarrow> int \<Rightarrow> database \<times> bool" where
  "remove_group db chat_id =
     (db\<lparr>groups := map (\<lambda>g. if g_chat_id g = chat_id then g\<lparr>g_is_active := False\<rparr> else g)
                       (groups db)\<rparr>,
      0 < length (filter (\<lambda>g. g_chat_id g = chat_id) (groups db)))"

text \<open>\<^verbatim>\<open>SELECT * FROM groups WHERE is_active = 1\<close>.\<close>

definition get_active_groups :: "database \<Rightarrow> group_row list" where
  "get_active_groups db = filter g_is_active (groups db)"

text \<open>\<^verbatim>\<open>SELECT * FROM groups WHERE chat_id = ?\<close>, the first row or \<^verbatim>\<open>None\<close>.\<close>

definition get_group_by_chat_id :: "database \<Rightarrow> int \<Rightarrow> group_row option" where
  "get_group_by_chat_id db chat_id = find (\<lambda>g. g_chat_id g = chat_id) (groups db)"

text \<open>\<^verbatim>\<open>UPDATE groups SET filter_accounts = ?, updated_at = CURRENT_TIMESTAMP WHERE
  chat_id = ?\<close>; returns \<^verbatim>\<open>rowcount > 0\<close>.\<close>

definition update_group_filter ::
    "(string list \<Rightarrow> string) \<Rightarrow> database \<Rightarrow> int \<Rightarrow> string list option \<Rightarrow> timestamp
       \<Rightarrow> database \<times> bool" where
  "update_group_filter dumps db chat_id filter_accounts now =
     (db\<lparr>groups :=
          map (\<lambda>g. if g_chat_id g = chat_id
                   then g\<lparr>g_filter_accounts := filter_json dumps filter_accounts,
                          g_updated_at := now\<rparr>
                   else g)
              (groups db)\<rparr>,
      0 < length (filter (\<lambda>g. g_chat_id g = chat_id) (groups db)))"

subsection \<open>Deliveries\<close>

text \<open>\<^verbatim>\<open>SELECT COUNT(*) FROM email_notifications WHERE email_id = ? AND group_id = ?\<close>,
  positive.\<close>

definition email_sent_to_group :: "database \<Rightarrow> nat \<Rightarrow> nat \<Rightarrow> bool" where
  "email_sent_to_group db email_id group_id =
     (0 < length (filter (\<lambda>n. n_email_id n = email_id \<and> n_group_id n = group_id)
                         (email_notifications db)))"

text \<open>
  \<^verbatim>\<open>INSERT OR IGNORE INTO email_notifications (email_id, group_id, telegram_message_id)\<close>:
  nothing is inserted when a row holds the same \<open>(email_id, group_id)\<close>, the pair the
  table declares UNIQUE. The method returns \<^verbatim>\<open>cursor.lastrowid\<close>, which its only caller
  drops; the model returns the store alone.
\<close>

definition add_notification :: "database \<Rightarrow> nat \<Rightarrow> nat \<Rightarrow> int \<Rightarrow> timestamp \<Rightarrow> database" where
  "add_notification db email_id group_id telegram_message_id now =
     (if list_ex (\<lambda>n. n_email_id n = email_id \<and> n_group_id n = group_id)
                 (email_notifications db)
      then db
      else (let lastrowid = next_rowid (email_notifications_seq db)
                                       (map n_id (email_notifications db))
            in db\<lparr>email_notifications := email_notifications db @
                     [\<lparr>n_id = lastrowid, n_email_id = email_id, n_group_id = group_id,
                       n_telegram_message_id = Some telegram_message_id,
                       n_is_handled = False, n_handled_at = None, n_handled_by = None,
                       n_created_at = now\<rparr>],
                   email_notifications_seq := lastrowid\<rparr>))"

text \<open>
  \<^verbatim>\<open>UPDATE email_notifications SET is_handled = 1, handled_at = CURRENT_TIMESTAMP,
  handled_by = ? WHERE telegram_message_id = ? AND is_handled = 0\<close>, one statement; the
  method returns \<^verbatim>\<open>cursor.rowcount > 0\<close>.
\<close>

definition ack_matches :: "int \<Rightarrow> notification_row \<Rightarrow> bool" where
  "ack_matches telegram_message_id n =
     (n_telegram_message_id n = Some telegram_message_id \<and> \<not> n_is_handled n)"

definition set_handled :: "int \<Rightarrow> timestamp \<Rightarrow> notification_row \<Rightarrow> notification_row" where
  "set_handled handled_by now n =
     n\<lparr>n_is_handled := True, n_handled_at := Some now, n_handled_by := Some handled_by\<rparr>"

definition mark_notification_handled ::
    "database \<Rightarrow> int \<Rightarrow> int \<Rightarrow> timestamp \<Rightarrow> database \<times> bool" where
  "mark_notification_handled db telegram_message_id handled_by now =
     (let rowcount = length (filter (ack_matches telegram_message_id) (email_notifications db))
      in (db\<lparr>email_notifications :=
               map (\<lambda>n. if ack_matches telegram_message_id n
                        then set_handled handled_by now n else n)
                   (email_notifications db)\<rparr>,
          0 < rowcount))"


section \<open>The schema (init_database)\<close>

text \<open>
  The statements of \<^verbatim>\<open>init_database\<close> as data: for every \<^verbatim>\<open>CREATE TABLE\<close> its columns
  with their constraints, its foreign keys and its table constraints \<^verbatim>\<open>UNIQUE(...)\<close>; for
  every \<^verbatim>\<open>CREATE INDEX\<close> the table and the column, and whether the statement says
  \<^verbatim>\<open>UNIQUE\<close>.
\<close>

datatype sql_type = SqlInteger | SqlText | SqlTimestamp | SqlBoolean

record column =
  col_name :: string
  col_type :: sql_type
  col_primary_key :: bool
  col_unique :: bool
  col_not_null :: bool
  col_default :: "string option"

record table =
  tbl_name :: string
  tbl_columns :: "column list"
  tbl_foreign_keys :: "(string \<times> string \<times> string) list"
  tbl_unique :: "string list list"

record index =
  idx_name :: string
  idx_unique :: bool
  idx_table :: string
  idx_columns :: "string list"

record schema =
  tables :: "table list"
  indexes :: "index list"

text \<open>A column with no constraint, and the constraints a declaration adds to it.\<close>

definition col :: "string \<Rightarrow> sql_type \<Rightarrow> column" where
  "col name ty =
     \<lparr>col_name = name, col_type = ty, col_primary_key = False, col_unique = False,
      col_not_null = False, col_default = None\<rparr>"

definition primary_key_autoincrement :: "column \<Rightarrow> column" where
  "primary_key_autoincrement c = c\<lparr>col_primary_key := True\<rparr>"

definition unique :: "column \<Rightarrow> column" where
  "unique c = c\<lparr>col_unique := True\<rparr>"

definition not_null :: "column \<Rightarrow> column" where
  "not_null c = c\<lparr>col_not_null := True\<rparr>"

definition default_value :: "string \<Rightarrow> column \<Rightarrow> column" where
  "default_value d c = c\<lparr>col_default := Some d\<rparr>"

definition emails_table :: table where
  "emails_table =
     \<lparr>tbl_name = ''emails'',
      tbl_columns =
        [primary_key_autoincrement (col ''id'' SqlInteger),
         not_null (col ''message_id'' SqlText),
         not_null (col ''email_account'' SqlText),
         not_null (col ''sender'' SqlText),
         not_null (col ''subject'' SqlText),
         col ''body_preview'' SqlText,
         not_null (col ''received_date'' SqlTimestamp),
         default_value ''CURRENT_TIMESTAMP'' (col ''created_at'' SqlTimestamp),
         not_null (col ''email_hash'' SqlText)],
      tbl_foreign_keys = [],
      tbl_unique = []\<rparr>"

definition groups_table :: table where
  "groups_table =
     \<lparr>tbl_name = ''groups'',
      tbl_columns =
        [primary_key_autoincrement (col ''id'' SqlInteger),
         not_null (unique (col ''chat_id'' SqlInteger)),
         col ''chat_title'' SqlText,
         default_value ''1'' (col ''is_active'' SqlBoolean),
         col ''filter_accounts'' SqlText,
         default_value ''CURRENT_TIMESTAMP'' (col ''added_at'' SqlTimestamp),
         col ''added_by'' SqlInteger,
         default_value ''CURRENT_TIMESTAMP'' (col ''updated_at'' SqlTimestamp)],
      tbl_foreign_keys = [],
      tbl_unique = []\<rparr>"

definition email_notifications_table :: table where
  "email_notifications_table =
     \<lparr>tbl_name = ''email_notifications'',
      tbl_columns =
        [primary_key_autoincrement (col ''id'' SqlInteger),
         not_null (col ''email_id'' SqlInteger),
         not_null (col ''group_id'' SqlInteger),
         col ''telegram_message_id'' SqlInteger,
         default_value ''0'' (col ''is_handled'' SqlBoolean),
         col ''handled_at'' SqlTimestamp,
         col ''handled_by'' SqlInteger,
         default_value ''CURRENT_TIMESTAMP'' (col ''created_at'' SqlTimestamp)],
      tbl_foreign_keys =
        [(''email_id'', ''emails'', ''id''), (''group_id'', ''groups'', ''id'')],
      tbl_unique = [[''email_id'', ''group_id'']]\<rparr>"

definition init_database :: schema where
  "init_database =
     \<lparr>tables = [emails_table, groups_table, email_notifications_table],
      indexes =
        [\<lparr>idx_name = ''idx_message_id'', idx_unique = False, idx_table = ''emails'',
          idx_columns = [''message_id'']\<rparr>,
         \<lparr>idx_name = ''idx_email_hash'', idx_unique = False, idx_table = ''emails'',
          idx_columns = [''email_hash'']\<rparr>,
         \<lparr>idx_name = ''idx_chat_id'', idx_unique = False, idx_table = ''groups'',
          idx_columns = [''chat_id'']\<rparr>,
         \<lparr>idx_name = ''idx_email_notifications_email'', idx_unique = False,
          idx_table = ''email_notifications'', idx_columns = [''email_id'']\<rparr>,
         \<lparr>idx_name = ''idx_email_notifications_group'', idx_unique = False,
          idx_table = ''email_notifications'', idx_columns = [''group_id'']\<rparr>,
         \<lparr>idx_name = ''idx_telegram_msg_id'', idx_unique = False,
          idx_table = ''email_notifications'', idx_columns = [''telegram_message_id'']\<rparr>]\<rparr>"

text \<open>
  What a schema makes the store enforce. The uniqueness constraints of a table are its
  primary key, its columns declared UNIQUE, its table constraints UNIQUE and its unique
  indexes. A plain \<^verbatim>\<open>INSERT\<close> of a row (a list of column names and values, a missing
  column read as NULL) is rejected when a NOT NULL column is NULL in it, or when a stored
  row agrees with it on all columns of a uniqueness constraint, none of them NULL; else
  the row is appended.
\<close>

datatype sql_value = Null | IntV int | TextV string

type_synonym sql_row = "(string \<times> sql_value) list"

datatype sql_error = IntegrityError

definition unique_keys :: "schema \<Rightarrow> string \<Rightarrow> string list list" where
  "unique_keys sch name =
     concat (map (\<lambda>t. map (\<lambda>c. [col_name c])
                          (filter (\<lambda>c. col_primary_key c \<or> col_unique c) (tbl_columns t))
                      @ tbl_unique t)
                 (filter (\<lambda>t. tbl_name t = name) (tables sch)))
     @ map idx_columns (filter (\<lambda>i. idx_table i = name \<and> idx_unique i) (indexes sch))"

definition not_null_columns :: "schema \<Rightarrow> string \<Rightarrow> string list" where
  "not_null_columns sch name =
     concat (map (\<lambda>t. map col_name (filter col_not_null (tbl_columns t)))
                 (filter (\<lambda>t. tbl_name t = name) (tables sch)))"

definition col_value :: "sql_row \<Rightarrow> string \<Rightarrow> sql_value" where
  "col_value r c = (case map_of r c of None \<Rightarrow> Null | Some v \<Rightarrow> v)"

definition key_conflict :: "string list \<Rightarrow> sql_row \<Rightarrow> sql_row \<Rightarrow> bool" where
  "key_conflict key old new =
     list_all (\<lambda>c. col_value new c \<noteq> Null \<and> col_value old c = col_value new c) key"

definition sql_insert :: "schema \<Rightarrow> string \<Rightarrow> sql_row list \<Rightarrow> sql_row \<Rightarrow> sql_error + sql_row list" where
  "sql_insert sch name rows new =
     (if list_ex (\<lambda>c. col_value new c = Null) (not_null_columns sch name)
         \<or> list_ex (\<lambda>key. list_ex (\<lambda>old. key_conflict key old new) rows)
                    (unique_keys sch name)
      then Inl IntegrityError
      else Inr (rows @ [new]))"

section \<open>The classifier (parser.py)\<close>

subsection \<open>Strings and the regular expressions of the program\<close>

text \<open>\<^verbatim>\<open>str.lower\<close> on the first 256 code points: the capital letters are A to Z and the
  code points 192 to 222 but for the multiplication sign 215; each has its small letter
  32 places further.\<close>

definition lower_char :: "char \<Rightarrow> char" where
  "lower_char c =
     (let n = (of_char c :: nat)
      in if (65 \<le> n \<and> n \<le> 90) \<or> (192 \<le> n \<and> n \<le> 222 \<and> n \<noteq> 215)
         then char_of (n + 32) else c)"

definition lower :: "string \<Rightarrow> string" where
  "lower s = map lower_char s"

text \<open>\<^verbatim>\<open>kw in text\<close> for two strings: \<open>kw\<close> occurs in \<open>text\<close>.\<close>

fun contains :: "string \<Rightarrow> string \<Rightarrow> bool" where
  "contains [] kw = (kw = [])"
| "contains (c # cs) kw = (take (length kw) (c # cs) = kw \<or> contains cs kw)"

text \<open>
  The white space of \<^verbatim>\<open>\s\<close> on a \<^verbatim>\<open>str\<close> pattern, among the first 256 code points: tab to
  carriage return, the four separators 28 to 31, space, NEL and the no-break space.
\<close>

definition is_space :: "char \<Rightarrow> bool" where
  "is_space c =
     (let n = (of_char c :: nat)
      in (9 \<le> n \<and> n \<le> 13) \<or> (28 \<le> n \<and> n \<le> 32) \<or> n = 133 \<or> n = 160)"

text \<open>
  The patterns of parser.py use a literal character, \<^verbatim>\<open>.\<close> (any character but a newline;
  no pattern is compiled with DOTALL where it matters here), \<^verbatim>\<open>\S\<close>, the postfix operators
  \<^verbatim>\<open>?\<close> and \<^verbatim>\<open>+\<close> on one of these, and \<^verbatim>\<open>|\<close> between alternatives. A pattern is read from
  its text by \<open>regex\<close>, one alternative at a time.
\<close>

datatype atom = Ch char | AnyButNewline | NonSpace

datatype item = One atom | Optional atom | Plus atom

fun atom_ok :: "atom \<Rightarrow> char \<Rightarrow> bool" where
  "atom_ok (Ch a) c = (c = a)"
| "atom_ok AnyButNewline c = (c \<noteq> CHR 0x0A)"
| "atom_ok NonSpace c = (\<not> is_space c)"

fun read_atom :: "string \<Rightarrow> (atom \<times> string) option" where
  "read_atom [] = None"
| "read_atom (c # cs) =
     (if c = CHR ''.'' then Some (AnyButNewline, cs)
      else if c = CHR 0x5C then
        (case cs of
           [] \<Rightarrow> None
         | d # ds \<Rightarrow> if d = CHR ''S'' then Some (NonSpace, ds) else Some (Ch d, ds))
      else Some (Ch c, cs))"

fun regex_fuel :: "nat \<Rightarrow> string \<Rightarrow> item list" where
  "regex_fuel 0 s = []"
| "regex_fuel (Suc n) s =
     (case read_atom s of
        None \<Rightarrow> []
      | Some (a, rest) \<Rightarrow>
          (case rest of
             [] \<Rightarrow> [One a]
           | q # rest' \<Rightarrow>
               if q = CHR ''?'' then Optional a # regex_fuel n rest'
               else if q = CHR ''+'' then Plus a # regex_fuel n rest'
               else One a # regex_fuel n rest))"

definition regex :: "string \<Rightarrow> item list" where
  "regex s = regex_fuel (length s) s"

text \<open>\<^verbatim>\<open>pattern.split('|')\<close>: the alternatives of a pattern.\<close>

fun split_bar :: "string \<Rightarrow> string list" where
  "split_bar [] = [[]]"
| "split_bar (c # cs) =
     (if c = CHR ''|'' then [] # split_bar cs
      else (case split_bar cs of [] \<Rightarrow> [[c]] | w # ws \<Rightarrow> (c # w) # ws))"

text \<open>
  Matching at the start of a text, as the backtracking matcher of \<^verbatim>\<open>re\<close> does: an optional
  atom is taken first and given back when the rest fails; \<^verbatim>\<open>+\<close> takes as many characters
  as it can and gives them back one at a time. The result is the text left after the
  match, \<open>None\<close> when there is no match.
\<close>

fun match_rest :: "item list \<Rightarrow> string \<Rightarrow> string option" where
  "match_rest [] s = Some s"
| "match_rest (One a # its) [] = None"
| "match_rest (One a # its) (c # cs) = (if atom_ok a c then match_rest its cs else None)"
| "match_rest (Optional a # its) [] = match_rest its []"
| "match_rest (Optional a # its) (c # cs) =
     (if atom_ok a c
      then (case match_rest its cs of Some r \<Rightarrow> Some r | None \<Rightarrow> match_rest its (c # cs))
      else match_rest its (c # cs))"
| "match_rest (Plus a # its) [] = None"
| "match_rest (Plus a # its) (c # cs) =
     (if atom_ok a c
      then (case match_rest (Plus a # its) cs of Some r \<Rightarrow> Some r | None \<Rightarrow> match_rest its cs)
      else None)"




text \<open>\<^verbatim>\<open>re.search\<close> of one alternative, as a truth value: a match starts somewhere.\<close>

fun search_items :: "item list \<Rightarrow> string \<Rightarrow> bool" where
  "search_items its [] = (match_rest its [] \<noteq> None)"
| "search_items its (c # cs) = (match_rest its (c # cs) \<noteq> None \<or> search_items its cs)"

definition re_search :: "string \<Rightarrow> string \<Rightarrow> bool" where
  "re_search pattern text = list_ex (\<lambda>alt. search_items (regex alt) text) (split_bar pattern)"

text \<open>
  \<^verbatim>\<open>re.sub(pattern, repl, text)\<close> for a pattern of one alternative: from left to right,
  a match is replaced and the scan goes on after it; a character no match starts at is
  kept. No pattern the program substitutes matches the empty string; where a match would
  not consume a character, the model keeps the character and moves on.
\<close>

function re_sub_items :: "item list \<Rightarrow> string \<Rightarrow> string \<Rightarrow> string" where
  "re_sub_items its repl [] = []"
| "re_sub_items its repl (c # cs) =
     (case match_rest its (c # cs) of
        None \<Rightarrow> c # re_sub_items its repl cs
      | Some r \<Rightarrow>
          if length r \<le> length cs then repl @ re_sub_items its repl r
          else c # re_sub_items its repl cs)"
  by pat_completeness auto
termination
  by (relation "measure (\<lambda>(its, repl, s). length s)") auto

definition re_sub :: "string \<Rightarrow> string \<Rightarrow> string \<Rightarrow> string" where
  "re_sub pattern repl text = re_sub_items (regex pattern) repl text"

subsection \<open>EmailParser\<close>

record email_parser =
  max_preview_length :: int
  spam_keywords :: "string list"

text \<open>\<^verbatim>\<open>__init__\<close>: the keywords are lower-cased once; \<^verbatim>\<open>None\<close> stands for no keywords.\<close>

definition EmailParser :: "int \<Rightarrow> string list option \<Rightarrow> email_parser" where
  "EmailParser max_preview kws =
     \<lparr>max_preview_length = max_preview,
      spam_keywords = map lower (case kws of None \<Rightarrow> [] | Some ks \<Rightarrow> ks)\<rparr>"

text \<open>\<^verbatim>\<open>text[:k]\<close>: a negative \<open>k\<close> counts from the end.\<close>

definition slice_to :: "string \<Rightarrow> int \<Rightarrow> string" where
  "slice_to text k =
     (if 0 \<le> k then take (nat k) text else take (nat (int (length text) + k)) text)"

definition url_pattern :: string where
  "url_pattern = ''https?://'' @ [CHR 0x5C] @ ''S+''"


definition create_preview :: "email_parser \<Rightarrow> string \<Rightarrow> string" where
  "create_preview parser text =
     (if text = [] then ''No content''
      else (let text1 = re_sub url_pattern ''[URL]'' text
            in if max_preview_length parser < int (length text1)
               then slice_to text1 (max_preview_length parser - 3) @ ''...''
               else text1))"

definition auto_reply_patterns :: "string list" where
  "auto_reply_patterns =
     [''auto.?reply'', ''automatic.?reply'', ''out.?of.?office'', ''vacation.?reply'',
      ''away.?from.?office'', ''be.?back.?on'']"

definition no_reply_pattern :: string where
  "no_reply_pattern = ''no.?reply|donotreply|postmaster|mailer.?daemon''"

definition combined_text :: "string \<Rightarrow> string \<Rightarrow> string \<Rightarrow> string" where
  "combined_text sender subject body = lower (sender @ '' '' @ subject @ '' '' @ body)"

text \<open>
  \<^verbatim>\<open>_is_spam\<close>. The auto-reply patterns are searched with \<^verbatim>\<open>re.IGNORECASE\<close> in a text
  that is lower-cased already, by patterns written in lower case: the flag changes
  nothing on it.
\<close>

definition is_spam :: "email_parser \<Rightarrow> string \<Rightarrow> string \<Rightarrow> string \<Rightarrow> bool" where
  "is_spam parser sender subject body =
     (if list_ex (\<lambda>keyword. contains (combined_text sender subject body) keyword)
                 (spam_keywords parser) then True
      else if list_ex (\<lambda>pattern. re_search pattern (combined_text sender subject body))
                      auto_reply_patterns then True
      else if re_search no_reply_pattern (lower sender) then True
      else False)"

text \<open>
  \<^verbatim>\<open>parse_email\<close>. A raw message is represented by what \<^verbatim>\<open>mailparser\<close> and the
  extraction helpers (\<^verbatim>\<open>_extract_sender\<close>, \<^verbatim>\<open>_parse_date\<close>, \<^verbatim>\<open>_extract_body_text\<close>) give for
  it, \<open>None\<close> when one of them raises; \<^verbatim>\<open>x or d\<close> replaces \<^verbatim>\<open>None\<close> and the empty string.
\<close>

record mail =
  m_message_id :: "string option"
  m_sender :: string
  m_subject :: "string option"
  m_date :: timestamp
  m_body_text :: string

record parsed_email =
  p_message_id :: string
  p_sender :: string
  p_subject :: string
  p_body_preview :: string
  p_received_date :: timestamp
  p_is_spam :: bool

definition or_default :: "string option \<Rightarrow> string \<Rightarrow> string" where
  "or_default x d = (case x of None \<Rightarrow> d | Some s \<Rightarrow> if s = [] then d else s)"

definition parse_email :: "email_parser \<Rightarrow> mail option \<Rightarrow> parsed_email option" where
  "parse_email parser raw_email =
     (case raw_email of
        None \<Rightarrow> None
      | Some m \<Rightarrow>
          Some \<lparr>p_message_id = or_default (m_message_id m) '''',
                p_sender = m_sender m,
                p_subject = or_default (m_subject m) ''No Subject'',
                p_body_preview = create_preview parser (m_body_text m),
                p_received_date = m_date m,
                p_is_spam = is_spam parser (m_sender m)
                              (or_default (m_subject m) ''No Subject'') (m_body_text m)\<rparr>)"

section \<open>The account watcher (imap_watcher.py)\<close>

text \<open>
  The watcher of one account: whether it holds a client (\<^verbatim>\<open>self.client\<close> is not \<^verbatim>\<open>None\<close>),
  and the identifiers it has seen last, its watermark. What it emits is the item it
  builds for a fetched message; the raw message is represented as in the parser.
\<close>

record email_data =
  account_label :: string
  account_email :: string
  raw_email :: "mail option"
  uid :: int

record watcher =
  w_label :: string
  w_email :: string
  client :: bool
  last_seen_uids :: "int set"

text \<open>
  The exceptions the watcher tells apart: \<open>ConnectionError\<close> stands for
  \<^verbatim>\<open>ConnectionError\<close> and \<^verbatim>\<open>ssl.SSLError\<close>, \<open>RetryError\<close> is what the retry decorator raises
  when it gives up.
\<close>

datatype imap_error = ConnectionError | IMAPClientError | RetryError | OtherError

text \<open>
  The answer of the server to one attempt to connect: the constructor of the client
  fails, or the login or the selection of the folder fails, or the search fails, or all
  succeed and the search returns the identifiers of the folder. The client is assigned
  as soon as it is constructed; the watermark only at the end.
\<close>

datatype connect_answer =
  OpenFails imap_error | LoginFails imap_error | SearchFails imap_error
  | Connected "int list"

fun connect_once :: "watcher \<Rightarrow> connect_answer \<Rightarrow> watcher \<times> (imap_error + unit)" where
  "connect_once w (OpenFails e) = (w, Inl e)"
| "connect_once w (LoginFails e) = (w\<lparr>client := True\<rparr>, Inl e)"
| "connect_once w (SearchFails e) = (w\<lparr>client := True\<rparr>, Inl e)"
| "connect_once w (Connected messages) =
     (w\<lparr>client := True, last_seen_uids := set messages\<rparr>, Inr ())"

text \<open>
  \<^verbatim>\<open>connect\<close> under its decorator: an attempt that raises \<open>ConnectionError\<close> is repeated,
  three attempts in all, and then \<open>RetryError\<close> is raised; any other exception is
  raised at once. \<open>answers k\<close> is the answer to attempt \<open>k\<close>.
\<close>

fun connect_attempts ::
    "nat \<Rightarrow> nat \<Rightarrow> watcher \<Rightarrow> (nat \<Rightarrow> connect_answer) \<Rightarrow> watcher \<times> (imap_error + unit)" where
  "connect_attempts 0 k w answers = (w, Inl RetryError)"
| "connect_attempts (Suc n) k w answers =
     (case connect_once w (answers k) of
        (w1, Inr u) \<Rightarrow> (w1, Inr u)
      | (w1, Inl e) \<Rightarrow>
          if e = ConnectionError then connect_attempts n (Suc k) w1 answers
          else (w1, Inl e))"

definition connect :: "watcher \<Rightarrow> (nat \<Rightarrow> connect_answer) \<Rightarrow> watcher \<times> (imap_error + unit)" where
  "connect w answers = connect_attempts 3 0 w answers"

definition disconnect :: "watcher \<Rightarrow> watcher" where
  "disconnect w = w\<lparr>client := False\<rparr>"

text \<open>
  The answers of the server during one check: to the attempts to connect (asked only
  when the watcher holds no client), to the search, and to the fetch of each identifier:
  the raw message, a response without the identifier, or an exception.
\<close>

datatype fetch_answer = Fetched "mail option" | NotInResponse | FetchRaises

record server =
  srv_connect :: "nat \<Rightarrow> connect_answer"
  srv_search :: "imap_error + int list"
  srv_fetch :: "int \<Rightarrow> fetch_answer"

text \<open>The loop \<^verbatim>\<open>for uid in new_uids\<close>: an identifier whose fetch raises, or that the
  response lacks, adds nothing, and the loop goes on.\<close>

fun fetch_new :: "watcher \<Rightarrow> (int \<Rightarrow> fetch_answer) \<Rightarrow> int list \<Rightarrow> email_data list" where
  "fetch_new w fetch [] = []"
| "fetch_new w fetch (u # new_uids) =
     (case fetch u of
        Fetched raw \<Rightarrow>
          \<lparr>account_label = w_label w, account_email = w_email w, raw_email = raw, uid = u\<rparr>
            # fetch_new w fetch new_uids
      | NotInResponse \<Rightarrow> fetch_new w fetch new_uids
      | FetchRaises \<Rightarrow> fetch_new w fetch new_uids)"

text \<open>The two handlers of \<^verbatim>\<open>check_new_emails\<close>: a connection or protocol error drops the
  client, any other exception is logged only.\<close>

definition on_error :: "imap_error \<Rightarrow> watcher \<Rightarrow> watcher" where
  "on_error e w = (if e = ConnectionError \<or> e = IMAPClientError then disconnect w else w)"

text \<open>
  \<^verbatim>\<open>check_new_emails\<close>. The new identifiers are the current ones that are not in the
  watermark; Python iterates over them as a set, in no specified order, and the model
  takes them in the order of the server's answer. The watermark is assigned inside
  \<^verbatim>\<open>if new_uids:\<close>. When an exception reaches a handler, nothing has been emitted yet.
\<close>

definition check_new_emails :: "watcher \<Rightarrow> server \<Rightarrow> watcher \<times> email_data list" where
  "check_new_emails w srv =
     (case (if \<not> client w then connect w (srv_connect srv) else (w, Inr ())) of
        (w1, Inl e) \<Rightarrow> (on_error e w1, [])
      | (w1, Inr u) \<Rightarrow>
          (case srv_search srv of
             Inl e \<Rightarrow> (on_error e w1, [])
           | Inr messages \<Rightarrow>
               (let new_uids = remdups (filter (\<lambda>u. u \<notin> last_seen_uids w1) messages)
                in if new_uids \<noteq> []
                   then (w1\<lparr>last_seen_uids := set messages\<rparr>,
                         fetch_new w1 (srv_fetch srv) new_uids)
                   else (w1, []))))"

text \<open>The checks of a polling loop, one after the other, each emitting to the queue.\<close>

fun run_checks :: "watcher \<Rightarrow> server list \<Rightarrow> watcher \<times> email_data list" where
  "run_checks w [] = (w, [])"
| "run_checks w (srv # srvs) =
     (case check_new_emails w srv of
        (w1, emitted) \<Rightarrow>
          (case run_checks w1 srvs of (w2, later) \<Rightarrow> (w2, emitted @ later)))"

section \<open>The dispatcher and the acknowledgment handler (bot.py)\<close>

text \<open>\<^verbatim>\<open>s.startswith(p)\<close>.\<close>

definition startswith :: "string \<Rightarrow> string \<Rightarrow> bool" where
  "startswith s p = (take (length p) s = p)"

subsection \<open>handle_read_button\<close>

text \<open>
  The callback query of a pressed button: its data, the identifier of the Telegram
  message the button hangs on, and the user who pressed. \<open>delete_ok\<close> says whether
  Telegram deletes the message or raises \<^verbatim>\<open>TelegramError\<close>. The result is the store and
  the answer given to the user, \<open>None\<close> when the handler answers nothing.
\<close>

record callback_query =
  q_data :: string
  q_message_id :: int
  q_from_user :: int

datatype answer = MarkedRead | DeleteError | AlreadyHandled

definition handle_read_button ::
    "database \<Rightarrow> callback_query \<Rightarrow> bool \<Rightarrow> timestamp \<Rightarrow> database \<times> answer option" where
  "handle_read_button db query delete_ok now =
     (if startswith (q_data query) ''read_'' then
        (case mark_notification_handled db (q_message_id query) (q_from_user query) now of
           (db', True) \<Rightarrow> (db', Some (if delete_ok then MarkedRead else DeleteError))
         | (db', False) \<Rightarrow> (db', Some AlreadyHandled))
      else (db, None))"

subsection \<open>subscribe_command\<close>

text \<open>A value is truthy in \<^verbatim>\<open>if group_id:\<close> when it is neither \<^verbatim>\<open>None\<close> nor 0.\<close>

definition truthy :: "nat option \<Rightarrow> bool" where
  "truthy x = (case x of None \<Rightarrow> False | Some n \<Rightarrow> n \<noteq> 0)"

datatype reply = GroupsOnly | Subscribed | SubscribeFailed

text \<open>The command calls \<^verbatim>\<open>add_group(chat_id, chat_title, user_id)\<close>: no filter is passed,
  so the parameter takes its default \<^verbatim>\<open>None\<close>.\<close>

definition subscribe_command ::
    "(string list \<Rightarrow> string) \<Rightarrow> database \<Rightarrow> string \<Rightarrow> int \<Rightarrow> string option \<Rightarrow> int
       \<Rightarrow> timestamp \<Rightarrow> database \<times> reply" where
  "subscribe_command dumps db chat_type chat_id title user_id now =
     (if chat_type \<noteq> ''group'' \<and> chat_type \<noteq> ''supergroup'' then (db, GroupsOnly)
      else (case add_group dumps db chat_id (or_default title ''Unknown Group'') user_id None now of
              (db', group_id) \<Rightarrow>
                (db', if truthy group_id then Subscribed else SubscribeFailed)))"

subsection \<open>should_send_to_group\<close>

text \<open>
  What \<^verbatim>\<open>json.loads\<close> returns, and \<^verbatim>\<open>x in v\<close> for a string \<open>x\<close> and such a value:
  membership in a list, occurrence in a string, a key of an object; on \<^verbatim>\<open>None\<close>, a truth
  value or a number it raises \<^verbatim>\<open>TypeError\<close>, the \<open>None\<close> of \<open>py_in\<close>.
\<close>

datatype json =
  JNull | JBool bool | JNumber int | JString string | JArray "json list"
  | JObject "(string \<times> json) list"

fun py_in :: "string \<Rightarrow> json \<Rightarrow> bool option" where
  "py_in x (JArray vs) = Some (list_ex (\<lambda>v. v = JString x) vs)"
| "py_in x (JString s) = Some (contains s x)"
| "py_in x (JObject kvs) = Some (list_ex (\<lambda>kv. fst kv = x) kvs)"
| "py_in x JNull = None"
| "py_in x (JBool b) = None"
| "py_in x (JNumber n) = None"

text \<open>\<open>loads\<close> is \<^verbatim>\<open>json.loads\<close>, \<open>None\<close> when it raises. The bare \<^verbatim>\<open>except\<close> turns every
  failure into "send".\<close>

definition should_send_to_group ::
    "(string \<Rightarrow> json option) \<Rightarrow> group_row \<Rightarrow> string \<Rightarrow> bool" where
  "should_send_to_group loads group_info email_account_label =
     (case g_filter_accounts group_info of
        None \<Rightarrow> True
      | Some filter_accounts \<Rightarrow>
          if filter_accounts = [] then True
          else (case loads filter_accounts of
                  None \<Rightarrow> True
                | Some filters \<Rightarrow>
                    (case py_in email_account_label filters of
                       None \<Rightarrow> True
                     | Some b \<Rightarrow> b)))"

subsection \<open>The queue processor\<close>

text \<open>
  The items of the queue are those the watcher builds. Telegram is a function from the number
  of the call of \<^verbatim>\<open>bot.send_message\<close> to its outcome: the identifier of the message sent,
  or \<open>None\<close> when the call raises. The state of the processor is the store and the
  number of calls made so far.
\<close>

type_synonym telegram = "nat \<Rightarrow> int option"

text \<open>\<^verbatim>\<open>send_email_notification\<close>: the message is formatted (which cannot fail on
  strings) and sent; the notification row is written only after a successful send.\<close>

definition send_email_notification ::
    "telegram \<Rightarrow> database \<times> nat \<Rightarrow> nat \<Rightarrow> nat \<Rightarrow> int \<Rightarrow> timestamp
       \<Rightarrow> (database \<times> nat) \<times> int option" where
  "send_email_notification tg st email_id group_id chat_id now =
     (case tg (snd st) of
        None \<Rightarrow> ((fst st, Suc (snd st)), None)
      | Some message_id \<Rightarrow>
          ((add_notification (fst st) email_id group_id message_id now, Suc (snd st)),
           Some message_id))"

text \<open>The loop \<^verbatim>\<open>for group in active_groups\<close> of the processor.\<close>

fun notify_groups ::
    "(string \<Rightarrow> json option) \<Rightarrow> telegram \<Rightarrow> nat \<Rightarrow> string \<Rightarrow> timestamp \<Rightarrow> group_row list
       \<Rightarrow> database \<times> nat \<Rightarrow> database \<times> nat" where
  "notify_groups loads tg email_id label now [] st = st"
| "notify_groups loads tg email_id label now (grp # active_groups) st =
     (if should_send_to_group loads grp label then
        (if \<not> email_sent_to_group (fst st) email_id (g_id grp) then
           notify_groups loads tg email_id label now active_groups
             (fst (send_email_notification tg st email_id (g_id grp) (g_chat_id grp) now))
         else notify_groups loads tg email_id label now active_groups st)
      else notify_groups loads tg email_id label now active_groups st)"

text \<open>One turn of the loop \<^verbatim>\<open>while self.running\<close> of \<^verbatim>\<open>process_email_queue\<close>, on the
  item taken from the queue. \<^verbatim>\<open>if email_id:\<close> passes when the identity is neither \<^verbatim>\<open>None\<close>
  nor 0.\<close>

definition process_email ::
    "(string \<Rightarrow> string) \<Rightarrow> (string \<Rightarrow> json option) \<Rightarrow> email_parser \<Rightarrow> telegram
       \<Rightarrow> database \<times> nat \<Rightarrow> email_data \<Rightarrow> timestamp \<Rightarrow> database \<times> nat" where
  "process_email sha256 loads parser tg st item now =
     (case parse_email parser (raw_email item) of
        None \<Rightarrow> st
      | Some parsed \<Rightarrow>
          if p_is_spam parsed then st
          else if email_exists sha256 (fst st) (p_message_id parsed) (p_sender parsed)
                    (p_subject parsed) then st
          else (case add_email sha256 (fst st) (p_message_id parsed)
                       (account_label item @ '' ('' @ account_email item @ '')'')
                       (p_sender parsed) (p_subject parsed) (p_body_preview parsed)
                       (p_received_date parsed) now of
                  (db1, None) \<Rightarrow> (db1, snd st)
                | (db1, Some email_id) \<Rightarrow>
                    if email_id \<noteq> 0 then
                      notify_groups loads tg email_id (account_label item) now
                        (get_active_groups db1) (db1, snd st)
                    else (db1, snd st)))"


section \<open>The configuration (config.py)\<close>

text \<open>
  \<^verbatim>\<open>EmailAccount\<close> and \<^verbatim>\<open>Settings\<close>, field by field. The fields of the settings carry the
  prefix \<open>cfg_\<close>, two of their names being fields of the parser too.
\<close>

record email_account =
  acc_label :: string
  acc_email :: string
  acc_password :: string
  acc_imap_server :: string
  acc_imap_port :: int
  acc_use_ssl :: bool
  acc_use_idle :: bool

record settings =
  cfg_telegram_bot_token :: string
  cfg_telegram_chat_id :: int
  cfg_telegram_allowed_users :: "int list"
  cfg_database_path :: string
  cfg_check_interval :: int
  cfg_log_level :: string
  cfg_email_accounts :: "email_account list"
  cfg_max_preview_length :: int
  cfg_spam_keywords :: "string list"

definition default_spam_keywords :: "string list" where
  "default_spam_keywords =
     [''unsubscribe'', ''no-reply'', ''noreply'', ''auto-reply'', ''automatic reply'',
      ''out of office'', ''vacation'', ''away from office'']"

definition valid_levels :: "string list" where
  "valid_levels = [''DEBUG'', ''INFO'', ''WARNING'', ''ERROR'', ''CRITICAL'']"

text \<open>
  The constructor \<^verbatim>\<open>Settings(...)\<close> with the seven keyword arguments that
  \<^verbatim>\<open>load_settings\<close> passes: the two fields it does not pass, \<^verbatim>\<open>max_preview_length\<close> and
  \<^verbatim>\<open>spam_keywords\<close>, take the defaults of the class. The result is \<open>None\<close> when a validator
  raises. \<open>upper\<close> is \<^verbatim>\<open>str.upper\<close>.
\<close>

definition Settings ::
    "(string \<Rightarrow> string) \<Rightarrow> string \<Rightarrow> int \<Rightarrow> int list \<Rightarrow> string \<Rightarrow> int \<Rightarrow> string
       \<Rightarrow> email_account list \<Rightarrow> settings option" where
  "Settings upper telegram_bot_token telegram_chat_id telegram_allowed_users database_path
            check_interval log_level email_accounts =
     (if telegram_bot_token = [] \<or> telegram_bot_token = ''your_bot_token_here'' then None
      else if telegram_chat_id = -1001234567890 then None
      else if upper log_level \<notin> set valid_levels then None
      else Some \<lparr>cfg_telegram_bot_token = telegram_bot_token,
                  cfg_telegram_chat_id = telegram_chat_id,
                  cfg_telegram_allowed_users = telegram_allowed_users,
                  cfg_database_path = database_path,
                  cfg_check_interval = check_interval,
                  cfg_log_level = upper log_level,
                  cfg_email_accounts = email_accounts,
                  cfg_max_preview_length = 600,
                  cfg_spam_keywords = default_spam_keywords\<rparr>)"

text \<open>\<^verbatim>\<open>os.getenv(key, default)\<close> on an environment.\<close>

definition getenv_default :: "(string \<Rightarrow> string option) \<Rightarrow> string \<Rightarrow> string \<Rightarrow> string" where
  "getenv_default getenv key dflt = (case getenv key of None \<Rightarrow> dflt | Some v \<Rightarrow> v)"

text \<open>
  \<^verbatim>\<open>load_settings\<close>. \<open>to_int\<close> is \<^verbatim>\<open>int(...)\<close> on a string, \<open>None\<close> when it raises;
  \<open>getenv\<close> is the environment; \<open>telegram_allowed_users\<close> and \<open>email_accounts\<close> are the
  lists the function has built from \<^verbatim>\<open>TELEGRAM_ALLOWED_USERS\<close> and \<^verbatim>\<open>accounts.yaml\<close> when it
  reaches the constructor; \<open>mkdir_ok\<close> says whether the directory of the database could be
  made. The result is \<open>None\<close> when the function raises.
\<close>

definition load_settings ::
    "(string \<Rightarrow> string) \<Rightarrow> (string \<Rightarrow> int option) \<Rightarrow> (string \<Rightarrow> string option) \<Rightarrow> int list
       \<Rightarrow> email_account list \<Rightarrow> bool \<Rightarrow> settings option" where
  "load_settings upper to_int getenv telegram_allowed_users email_accounts mkdir_ok =
     (case to_int (getenv_default getenv ''TELEGRAM_CHAT_ID'' ''-1001234567890'') of
        None \<Rightarrow> None
      | Some telegram_chat_id \<Rightarrow>
          (case to_int (getenv_default getenv ''CHECK_INTERVAL'' ''60'') of
             None \<Rightarrow> None
           | Some check_interval \<Rightarrow>
               (case Settings upper (getenv_default getenv ''TELEGRAM_BOT_TOKEN'' [])
                       telegram_chat_id telegram_allowed_users
                       (getenv_default getenv ''DATABASE_PATH'' ''data/emails.db'')
                       check_interval (getenv_default getenv ''LOG_LEVEL'' ''INFO'')
                       email_accounts of
                  None \<Rightarrow> None
                | Some settings \<Rightarrow> if mkdir_ok then Some settings else None)))"

text \<open>The parser that \<^verbatim>\<open>TelegramBot.__init__\<close> builds from the settings, the only parser
  of the program.\<close>

definition TelegramBot_parser :: "settings \<Rightarrow> email_parser" where
  "TelegramBot_parser settings =
     EmailParser (cfg_max_preview_length settings) (Some (cfg_spam_keywords settings))"

section \<open>Example data\<close>

text \<open>A store with one message delivered to two groups under the same Telegram message
  identifier (identifiers are per chat), and a second message delivered to the first.\<close>

definition example_notifications :: "notification_row list" where
  "example_notifications =
     [\<lparr>n_id = 1, n_email_id = 1, n_group_id = 1, n_telegram_message_id = Some 500,
       n_is_handled = False, n_handled_at = None, n_handled_by = None, n_created_at = 10\<rparr>,
      \<lparr>n_id = 2, n_email_id = 1, n_group_id = 2, n_telegram_message_id = Some 500,
       n_is_handled = False, n_handled_at = None, n_handled_by = None, n_created_at = 10\<rparr>,
      \<lparr>n_id = 3, n_email_id = 2, n_group_id = 1, n_telegram_message_id = Some 501,
       n_is_handled = False, n_handled_at = None, n_handled_by = None, n_created_at = 20\<rparr>]"

definition example_store :: database where
  "example_store =
     \<lparr>emails = [], groups = [], email_notifications = example_notifications,
      emails_seq = 2, groups_seq = 2, email_notifications_seq = 3\<rparr>"

text \<open>Two subscribed groups: the first filtered to the account "sales", the second
  unfiltered.\<close>

definition example_groups :: "group_row list" where
  "example_groups =
     [\<lparr>g_id = 1, g_chat_id = -100, g_chat_title = ''Sales'', g_is_active = True,
       g_filter_accounts = Some ''[\"sales\"]'', g_added_at = 5, g_added_by = 7,
       g_updated_at = 6\<rparr>,
      \<lparr>g_id = 2, g_chat_id = -200, g_chat_title = ''All'', g_is_active = True,
       g_filter_accounts = None, g_added_at = 5, g_added_by = 8, g_updated_at = 5\<rparr>]"

definition example_groups_store :: database where
  "example_groups_store =
     \<lparr>emails = [], groups = example_groups, email_notifications = [],
      emails_seq = 0, groups_seq = 2, email_notifications_seq = 0\<rparr>"

text \<open>An encoder for the two filters of the examples.\<close>

definition example_dumps :: "string list \<Rightarrow> string" where
  "example_dumps fs = (if fs = [''sales''] then ''[\"sales\"]'' else ''[\"support\"]'')"

text \<open>A decoder that knows the one filter text of the example.\<close>

definition example_loads :: "string \<Rightarrow> json option" where
  "example_loads txt =
     (if txt = ''[\"sales\"]'' then Some (JArray [JString ''sales'']) else None)"

text \<open>
  A store with two messages, the first without a Message-ID header, and the two groups;
  a stand-in for the hash that keeps its argument (so that different triples have
  different fingerprints); a queue item from the account "support" with a given
  Message-ID, and what the parser makes of it; a Telegram that sends every message.
\<close>

definition example_sha :: "string \<Rightarrow> string" where
  "example_sha s = s"

definition example_emails :: "email_row list" where
  "example_emails =
     [\<lparr>e_id = 1, e_message_id = [], e_email_account = ''sales (sales@corp.example)'',
       e_sender = ''a@x.com'', e_subject = ''Hello'', e_body_preview = ''hi'',
       e_received_date = 1, e_created_at = 2, e_email_hash = ''|a@x.com|Hello''\<rparr>,
      \<lparr>e_id = 2, e_message_id = ''<m1@x.com>'',
       e_email_account = ''sales (sales@corp.example)'',
       e_sender = ''a@x.com'', e_subject = ''Quote'', e_body_preview = ''the quote'',
       e_received_date = 3, e_created_at = 4,
       e_email_hash = ''<m1@x.com>|a@x.com|Quote''\<rparr>]"

definition example_mail_store :: database where
  "example_mail_store =
     \<lparr>emails = example_emails, groups = example_groups, email_notifications = [],
      emails_seq = 2, groups_seq = 2, email_notifications_seq = 0\<rparr>"

definition example_item :: "string option \<Rightarrow> email_data" where
  "example_item message_id =
     \<lparr>account_label = ''support'', account_email = ''support@corp.example'',
      raw_email = Some \<lparr>m_message_id = message_id, m_sender = ''b@y.com'',
                        m_subject = Some ''Invoice'', m_date = 5,
                        m_body_text = ''please find the invoice attached''\<rparr>,
      uid = 42\<rparr>"

definition example_parsed :: "string \<Rightarrow> parsed_email" where
  "example_parsed message_id =
     \<lparr>p_message_id = message_id, p_sender = ''b@y.com'', p_subject = ''Invoice'',
      p_body_preview = ''please find the invoice attached'', p_received_date = 5,
      p_is_spam = False\<rparr>"

definition example_telegram :: telegram where
  "example_telegram n = Some (500 + int n)"

text \<open>Rows as the store sees them, one for each table, with a given rowid.\<close>

definition example_email_sql_row :: "int \<Rightarrow> sql_row" where
  "example_email_sql_row rowid =
     [(''id'', IntV rowid), (''message_id'', TextV ''<m1@x.com>''),
      (''email_account'', TextV ''sales (sales@corp.example)''),
      (''sender'', TextV ''a@x.com''), (''subject'', TextV ''Quote''),
      (''body_preview'', TextV ''the quote''), (''received_date'', IntV 3),
      (''created_at'', IntV 4), (''email_hash'', TextV ''0f3a'')]"

definition example_group_sql_row :: "int \<Rightarrow> sql_row" where
  "example_group_sql_row rowid =
     [(''id'', IntV rowid), (''chat_id'', IntV (-100)), (''chat_title'', TextV ''Sales''),
      (''is_active'', IntV 1), (''added_at'', IntV 5), (''added_by'', IntV 7),
      (''updated_at'', IntV 5)]"

definition example_notification_sql_row :: "int \<Rightarrow> sql_row" where
  "example_notification_sql_row rowid =
     [(''id'', IntV rowid), (''email_id'', IntV 1), (''group_id'', IntV 2),
      (''telegram_message_id'', IntV 500), (''is_handled'', IntV 0),
      (''created_at'', IntV 10)]"

text \<open>A watcher before its first connect; a server that lists given identifiers and
  answers fetches in a given way; fetches that succeed except for message 4.\<close>

definition example_watcher :: watcher where
  "example_watcher =
     \<lparr>w_label = ''sales'', w_email = ''sales@corp.example'', client = False,
      last_seen_uids = {}\<rparr>"

definition example_server :: "int list \<Rightarrow> (int \<Rightarrow> fetch_answer) \<Rightarrow> server" where
  "example_server messages fetch =
     \<lparr>srv_connect = (\<lambda>k. Connected messages), srv_search = Inr messages,
      srv_fetch = fetch\<rparr>"

definition example_fetch :: "int \<Rightarrow> fetch_answer" where
  "example_fetch u = (if u = 4 then FetchRaises else Fetched None)"

text \<open>An environment with a bot token and a chat, and the library functions on the
  strings it holds.\<close>

definition example_getenv :: "string \<Rightarrow> string option" where
  "example_getenv key =
     (if key = ''TELEGRAM_BOT_TOKEN'' then Some ''12345:token''
      else if key = ''TELEGRAM_CHAT_ID'' then Some ''-5''
      else None)"

definition example_to_int :: "string \<Rightarrow> int option" where
  "example_to_int s = (if s = ''-5'' then Some (-5) else if s = ''60'' then Some 60 else None)"

definition example_upper :: "string \<Rightarrow> string" where
  "example_upper s = (if s = ''info'' then ''INFO'' else s)"

definition example_settings :: settings where
  "example_settings =
     \<lparr>cfg_telegram_bot_token = ''12345:token'', cfg_telegram_chat_id = -5,
      cfg_telegram_allowed_users = [], cfg_database_path = ''data/emails.db'',
      cfg_check_interval = 60, cfg_log_level = ''INFO'', cfg_email_accounts = [],
      cfg_max_preview_length = 600, cfg_spam_keywords = default_spam_keywords\<rparr>"

section \<open>Properties\<close>

subsection \<open>The matcher against the words of a pattern\<close>








subsection \<open>Spam classification\<close>

lemma lower_append: "lower (a @ b) = lower a @ lower b"
  by (simp add: lower_def)








subsection \<open>Preview construction\<close>


























subsection \<open>Acknowledgment\<close>

lemma mark_rows:
  "email_notifications (fst (mark_notification_handled db t u now)) =
     map (\<lambda>n. if ack_matches t n then set_handled u now n else n) (email_notifications db)"
  by (simp add: mark_notification_handled_def Let_def)

lemma mark_other_tables:
  "emails (fst (mark_notification_handled db t u now)) = emails db"
  "groups (fst (mark_notification_handled db t u now)) = groups db"
  by (simp_all add: mark_notification_handled_def Let_def)

lemma mark_result:
  "snd (mark_notification_handled db t u now) =
     (\<exists>n \<in> set (email_notifications db). ack_matches t n)"
proof -
  have "(0 < length (filter (ack_matches t) (email_notifications db))) =
          (filter (ack_matches t) (email_notifications db) \<noteq> [])"
    by simp
  also have "\<dots> = (\<exists>n \<in> set (email_notifications db). ack_matches t n)"
    by (simp add: filter_empty_conv)
  finally show ?thesis
    by (simp add: mark_notification_handled_def Let_def)
qed

lemma set_handled_neq: "ack_matches t n \<Longrightarrow> set_handled u now n \<noteq> n"
  by (auto simp: ack_matches_def set_handled_def dest: arg_cong[where f=n_is_handled])

lemma map_if_id:
  "(map (\<lambda>n. if P n then f n else n) xs = xs) = (\<forall>n \<in> set xs. P n \<longrightarrow> f n = n)"
  by (induction xs) auto

lemma mark_noop:
  "\<not> snd (mark_notification_handled db t u now) \<Longrightarrow>
     fst (mark_notification_handled db t u now) = db"
  unfolding mark_result
  by (simp add: mark_notification_handled_def Let_def map_if_id[THEN iffD2])

lemma mark_changes:
  assumes "snd (mark_notification_handled db t u now)"
  shows "fst (mark_notification_handled db t u now) \<noteq> db"
proof
  assume eq: "fst (mark_notification_handled db t u now) = db"
  from assms obtain n where n: "n \<in> set (email_notifications db)" "ack_matches t n"
    unfolding mark_result by blast
  have "map (\<lambda>n. if ack_matches t n then set_handled u now n else n) (email_notifications db)
        = email_notifications db"
    using mark_rows[of db t u now] eq by simp
  with n have "set_handled u now n = n" by (simp add: map_if_id)
  with n(2) show False using set_handled_neq by blast
qed

text \<open>
  One order of two acknowledgments of the delivery at row \<open>i\<close>: the first wins and
  writes the row, the second finds nothing pending and changes nothing.
\<close>

lemma first_ack_wins:
  assumes i: "i < length (email_notifications db)"
      and t: "n_telegram_message_id (email_notifications db ! i) = Some t"
      and p: "\<not> n_is_handled (email_notifications db ! i)"
  shows "\<exists>db1.
           mark_notification_handled db t u1 now1 = (db1, True)
         \<and> email_notifications db1 ! i =
             (email_notifications db ! i)
               \<lparr>n_is_handled := True, n_handled_at := Some now1, n_handled_by := Some u1\<rparr>
         \<and> mark_notification_handled db1 t u2 now2 = (db1, False)"
proof -
  let ?d = "email_notifications db ! i"
  define db1 where "db1 = fst (mark_notification_handled db t u1 now1)"
  have m: "ack_matches t ?d" using t p by (simp add: ack_matches_def)
  have "?d \<in> set (email_notifications db)" using i by simp
  with m have "snd (mark_notification_handled db t u1 now1)"
    unfolding mark_result by blast
  then have first: "mark_notification_handled db t u1 now1 = (db1, True)"
    unfolding db1_def by (simp add: prod_eq_iff)
  have rows: "email_notifications db1 =
      map (\<lambda>n. if ack_matches t n then set_handled u1 now1 n else n) (email_notifications db)"
    unfolding db1_def by (rule mark_rows)
  have row: "email_notifications db1 ! i = ?d
               \<lparr>n_is_handled := True, n_handled_at := Some now1, n_handled_by := Some u1\<rparr>"
    using i m by (simp add: rows set_handled_def)
  have "\<forall>n \<in> set (email_notifications db1). \<not> ack_matches t n"
    unfolding rows by (auto simp: ack_matches_def set_handled_def)
  then have no: "\<not> snd (mark_notification_handled db1 t u2 now2)"
    unfolding mark_result by blast
  then have "fst (mark_notification_handled db1 t u2 now2) = db1"
    by (rule mark_noop)
  with no have second: "mark_notification_handled db1 t u2 now2 = (db1, False)"
    by (simp add: prod_eq_iff)
  from first row second show ?thesis by blast
qed

text \<open>The same at the button handler: the answers the two users get.\<close>

lemma first_button_wins:
  assumes i: "i < length (email_notifications db)"
      and t: "n_telegram_message_id (email_notifications db ! i) = Some (q_message_id q1)"
      and p: "\<not> n_is_handled (email_notifications db ! i)"
      and q1: "startswith (q_data q1) ''read_''"
      and q2: "startswith (q_data q2) ''read_''"
      and same: "q_message_id q2 = q_message_id q1"
  shows "\<exists>db1.
           handle_read_button db q1 del1 now1 =
             (db1, Some (if del1 then MarkedRead else DeleteError))
         \<and> n_is_handled (email_notifications db1 ! i)
         \<and> n_handled_by (email_notifications db1 ! i) = Some (q_from_user q1)
         \<and> n_handled_at (email_notifications db1 ! i) = Some now1
         \<and> handle_read_button db1 q2 del2 now2 = (db1, Some AlreadyHandled)"
proof -
  from first_ack_wins[OF i t p, of "q_from_user q1" now1 "q_from_user q2" now2]
  obtain db1 where
    a: "mark_notification_handled db (q_message_id q1) (q_from_user q1) now1 = (db1, True)" and
    b: "email_notifications db1 ! i = (email_notifications db ! i)
          \<lparr>n_is_handled := True, n_handled_at := Some now1,
             n_handled_by := Some (q_from_user q1)\<rparr>" and
    c: "mark_notification_handled db1 (q_message_id q1) (q_from_user q2) now2 = (db1, False)"
    by blast
  have "handle_read_button db q1 del1 now1 =
          (db1, Some (if del1 then MarkedRead else DeleteError))"
    using q1 a by (simp add: handle_read_button_def)
  moreover have "handle_read_button db1 q2 del2 now2 = (db1, Some AlreadyHandled)"
    using q2 c same by (simp add: handle_read_button_def)
  ultimately show ?thesis using b by simp
qed

text \<open>
  C1. Acknowledgment arbitration. A delivery row \<open>i\<close> is pending and carries the Telegram
  message identifier \<open>t\<close>; two acknowledgments of it arrive, by \<open>u1\<close> at \<open>now1\<close> and by
  \<open>u2\<close> at \<open>now2\<close>. The mark-handled operation is one conditional UPDATE, a single step
  of the store, so the two attempts interleave in one of two orders. In either order the
  first attempt returns success and sets the row handled, with its user and its time; the
  second returns the failure status (a value, not an exception) and leaves the store, hence
  the handled state, the handler and the timestamp, as the first left it. The button
  handler answers the first user with the outcome of the deletion and the second with
  "already handled".
\<close>

theorem acknowledgment_arbitration:
  assumes "i < length (email_notifications db)"
      and "n_telegram_message_id (email_notifications db ! i) = Some t"
      and "\<not> n_is_handled (email_notifications db ! i)"
      and "startswith (q_data q1) ''read_''" and "q_message_id q1 = t"
      and "startswith (q_data q2) ''read_''" and "q_message_id q2 = t"
  shows
    "(\<exists>db1. mark_notification_handled db t u1 now1 = (db1, True)
          \<and> email_notifications db1 ! i =
              (email_notifications db ! i)
                \<lparr>n_is_handled := True, n_handled_at := Some now1, n_handled_by := Some u1\<rparr>
          \<and> mark_notification_handled db1 t u2 now2 = (db1, False))
   \<and> (\<exists>db1. mark_notification_handled db t u2 now2 = (db1, True)
          \<and> email_notifications db1 ! i =
              (email_notifications db ! i)
                \<lparr>n_is_handled := True, n_handled_at := Some now2, n_handled_by := Some u2\<rparr>
          \<and> mark_notification_handled db1 t u1 now1 = (db1, False))
   \<and> (\<exists>db1. handle_read_button db q1 del1 now1 =
              (db1, Some (if del1 then MarkedRead else DeleteError))
          \<and> n_is_handled (email_notifications db1 ! i)
          \<and> n_handled_by (email_notifications db1 ! i) = Some (q_from_user q1)
          \<and> n_handled_at (email_notifications db1 ! i) = Some now1
          \<and> handle_read_button db1 q2 del2 now2 = (db1, Some AlreadyHandled))
   \<and> (\<exists>db1. handle_read_button db q2 del2 now2 =
              (db1, Some (if del2 then MarkedRead else DeleteError))
          \<and> n_is_handled (email_notifications db1 ! i)
          \<and> n_handled_by (email_notifications db1 ! i) = Some (q_from_user q2)
          \<and> n_handled_at (email_notifications db1 ! i) = Some now2
          \<and> handle_read_button db1 q1 del1 now1 = (db1, Some AlreadyHandled))"
proof (intro conjI)
  show "\<exists>db1. mark_notification_handled db t u1 now1 = (db1, True)
          \<and> email_notifications db1 ! i =
              (email_notifications db ! i)
                \<lparr>n_is_handled := True, n_handled_at := Some now1, n_handled_by := Some u1\<rparr>
          \<and> mark_notification_handled db1 t u2 now2 = (db1, False)"
    using assms(1-3) by (rule first_ack_wins)
  show "\<exists>db1. mark_notification_handled db t u2 now2 = (db1, True)
          \<and> email_notifications db1 ! i =
              (email_notifications db ! i)
                \<lparr>n_is_handled := True, n_handled_at := Some now2, n_handled_by := Some u2\<rparr>
          \<and> mark_notification_handled db1 t u1 now1 = (db1, False)"
    using assms(1-3) by (rule first_ack_wins)
  show "\<exists>db1. handle_read_button db q1 del1 now1 =
              (db1, Some (if del1 then MarkedRead else DeleteError))
          \<and> n_is_handled (email_notifications db1 ! i)
          \<and> n_handled_by (email_notifications db1 ! i) = Some (q_from_user q1)
          \<and> n_handled_at (email_notifications db1 ! i) = Some now1
          \<and> handle_read_button db1 q2 del2 now2 = (db1, Some AlreadyHandled)"
    using assms by (intro first_button_wins) simp_all
  show "\<exists>db1. handle_read_button db q2 del2 now2 =
              (db1, Some (if del2 then MarkedRead else DeleteError))
          \<and> n_is_handled (email_notifications db1 ! i)
          \<and> n_handled_by (email_notifications db1 ! i) = Some (q_from_user q2)
          \<and> n_handled_at (email_notifications db1 ! i) = Some now2
          \<and> handle_read_button db1 q1 del1 now1 = (db1, Some AlreadyHandled)"
    using assms by (intro first_button_wins) simp_all
qed

theorem acknowledgment_arbitration_witness:
  "mark_notification_handled
     (fst (mark_notification_handled example_store 501 7 100)) 501 8 101 =
     (fst (mark_notification_handled example_store 501 7 100), False)
   \<and> snd (mark_notification_handled example_store 501 7 100)
   \<and> snd (handle_read_button
            (fst (handle_read_button example_store
                    \<lparr>q_data = ''read_2'', q_message_id = 501, q_from_user = 7\<rparr> True 100))
            \<lparr>q_data = ''read_2'', q_message_id = 501, q_from_user = 8\<rparr> True 101)
       = Some AlreadyHandled"
proof -
  have 1: "(2::nat) < length (email_notifications example_store)"
    by (simp add: example_store_def example_notifications_def)
  have 2: "n_telegram_message_id (email_notifications example_store ! 2) = Some 501"
    by (simp add: example_store_def example_notifications_def)
  have 3: "\<not> n_is_handled (email_notifications example_store ! 2)"
    by (simp add: example_store_def example_notifications_def)
  have 4: "startswith (q_data \<lparr>q_data = ''read_2'', q_message_id = 501, q_from_user = 7\<rparr>)
             ''read_''"
    by (simp add: startswith_def)
  have 5: "startswith (q_data \<lparr>q_data = ''read_2'', q_message_id = 501, q_from_user = 8\<rparr>)
             ''read_''"
    by (simp add: startswith_def)
  from acknowledgment_arbitration[OF 1 2 3 4 _ 5, of 7 100 8 101 True True]
  show ?thesis by auto
qed

text \<open>
  C8. The mark-handled operation selects rows by the Telegram message identifier alone:
  every row that carries the identifier and is pending is set handled by the acting user
  at the time of the call, whatever message and group it belongs to; every other row, and
  the other tables, stay as they are; and the call returns success exactly when some row
  is selected, which is exactly when the store changes.
\<close>

theorem mark_handled_by_message_id_alone:
  assumes "mark_notification_handled db t u now = (db', ok)"
  shows "length (email_notifications db') = length (email_notifications db)
   \<and> (\<forall>i < length (email_notifications db).
        email_notifications db' ! i =
          (if n_telegram_message_id (email_notifications db ! i) = Some t
               \<and> \<not> n_is_handled (email_notifications db ! i)
           then (email_notifications db ! i)
                  \<lparr>n_is_handled := True, n_handled_at := Some now, n_handled_by := Some u\<rparr>
           else email_notifications db ! i))
   \<and> emails db' = emails db \<and> groups db' = groups db
   \<and> ok = (\<exists>n \<in> set (email_notifications db).
               n_telegram_message_id n = Some t \<and> \<not> n_is_handled n)
   \<and> ok = (db' \<noteq> db)"
proof -
  have db': "db' = fst (mark_notification_handled db t u now)"
    and ok: "ok = snd (mark_notification_handled db t u now)"
    using assms by simp_all
  have rows: "email_notifications db' =
      map (\<lambda>n. if ack_matches t n then set_handled u now n else n) (email_notifications db)"
    unfolding db' by (rule mark_rows)
  have 1: "length (email_notifications db') = length (email_notifications db)"
    by (simp add: rows)
  have 2: "\<forall>i < length (email_notifications db).
        email_notifications db' ! i =
          (if n_telegram_message_id (email_notifications db ! i) = Some t
               \<and> \<not> n_is_handled (email_notifications db ! i)
           then (email_notifications db ! i)
                  \<lparr>n_is_handled := True, n_handled_at := Some now, n_handled_by := Some u\<rparr>
           else email_notifications db ! i)"
    by (simp add: rows ack_matches_def set_handled_def)
  have 3: "emails db' = emails db \<and> groups db' = groups db"
    unfolding db' by (simp add: mark_other_tables)
  have 4: "ok = (\<exists>n \<in> set (email_notifications db).
               n_telegram_message_id n = Some t \<and> \<not> n_is_handled n)"
    unfolding ok mark_result by (simp add: ack_matches_def)
  have 5: "ok = (db' \<noteq> db)"
    unfolding ok db' using mark_noop[of db t u now] mark_changes[of db t u now] by blast
  from 1 2 3 4 5 show ?thesis by blast
qed

text \<open>One acknowledgment of message 500 marks the rows of both groups; the row of
  message 501 stays pending.\<close>

theorem mark_handled_by_message_id_alone_witness:
  "mark_notification_handled example_store 500 7 100 =
     (example_store\<lparr>email_notifications :=
        [\<lparr>n_id = 1, n_email_id = 1, n_group_id = 1, n_telegram_message_id = Some 500,
          n_is_handled = True, n_handled_at = Some 100, n_handled_by = Some 7,
          n_created_at = 10\<rparr>,
         \<lparr>n_id = 2, n_email_id = 1, n_group_id = 2, n_telegram_message_id = Some 500,
          n_is_handled = True, n_handled_at = Some 100, n_handled_by = Some 7,
          n_created_at = 10\<rparr>,
         \<lparr>n_id = 3, n_email_id = 2, n_group_id = 1, n_telegram_message_id = Some 501,
          n_is_handled = False, n_handled_at = None, n_handled_by = None,
          n_created_at = 20\<rparr>]\<rparr>, True)
   \<and> example_store\<lparr>email_notifications :=
        [\<lparr>n_id = 1, n_email_id = 1, n_group_id = 1, n_telegram_message_id = Some 500,
          n_is_handled = True, n_handled_at = Some 100, n_handled_by = Some 7,
          n_created_at = 10\<rparr>,
         \<lparr>n_id = 2, n_email_id = 1, n_group_id = 2, n_telegram_message_id = Some 500,
          n_is_handled = True, n_handled_at = Some 100, n_handled_by = Some 7,
          n_created_at = 10\<rparr>,
         \<lparr>n_id = 3, n_email_id = 2, n_group_id = 1, n_telegram_message_id = Some 501,
          n_is_handled = False, n_handled_at = None, n_handled_by = None,
          n_created_at = 20\<rparr>]\<rparr> \<noteq> example_store"
proof -
  have h: "mark_notification_handled example_store 500 7 100 =
     (example_store\<lparr>email_notifications :=
        [\<lparr>n_id = 1, n_email_id = 1, n_group_id = 1, n_telegram_message_id = Some 500,
          n_is_handled = True, n_handled_at = Some 100, n_handled_by = Some 7,
          n_created_at = 10\<rparr>,
         \<lparr>n_id = 2, n_email_id = 1, n_group_id = 2, n_telegram_message_id = Some 500,
          n_is_handled = True, n_handled_at = Some 100, n_handled_by = Some 7,
          n_created_at = 10\<rparr>,
         \<lparr>n_id = 3, n_email_id = 2, n_group_id = 1, n_telegram_message_id = Some 501,
          n_is_handled = False, n_handled_at = None, n_handled_by = None,
          n_created_at = 20\<rparr>]\<rparr>, True)"
    by (simp add: mark_notification_handled_def example_store_def example_notifications_def
        ack_matches_def set_handled_def)
  from mark_handled_by_message_id_alone[OF h] show ?thesis using h by blast
qed

subsection \<open>Destinations\<close>

lemma fold_max_ge: "a \<le> fold max xs (a::nat)"
proof (induction xs arbitrary: a)
  case Nil
  show ?case by simp
next
  case (Cons x xs)
  have "a \<le> max x a" by simp
  also have "\<dots> \<le> fold max xs (max x a)" by (rule Cons.IH)
  finally show ?case by simp
qed

lemma fold_max_mem: "x \<in> set xs \<Longrightarrow> x \<le> fold max xs (a::nat)"
proof (induction xs arbitrary: a)
  case Nil
  then show ?case by simp
next
  case (Cons y ys)
  show ?case
  proof (cases "x = y")
    case True
    have "x \<le> max y a" using True by simp
    also have "\<dots> \<le> fold max ys (max y a)" by (rule fold_max_ge)
    finally show ?thesis by simp
  next
    case False
    with Cons.prems have "x \<in> set ys" by simp
    from Cons.IH[OF this] show ?thesis by simp
  qed
qed

lemma next_rowid_fresh: "x \<in> set ids \<Longrightarrow> x < next_rowid seq ids"
  using fold_max_mem[of x ids seq] by (simp add: next_rowid_def)

lemma next_rowid_above_seq: "seq < next_rowid seq ids"
  using fold_max_ge[of seq ids] by (simp add: next_rowid_def)

lemma next_rowid_pos: "next_rowid seq ids \<noteq> 0"
  by (simp add: next_rowid_def)

lemma add_group_eq:
  "add_group dumps db c title user fa now =
     (db\<lparr>groups := filter (\<lambda>g. g_chat_id g \<noteq> c) (groups db) @
          [\<lparr>g_id = next_rowid (groups_seq db) (map g_id (groups db)), g_chat_id = c,
            g_chat_title = title, g_is_active = True,
            g_filter_accounts = filter_json dumps fa,
            g_added_at = now, g_added_by = user, g_updated_at = now\<rparr>],
         groups_seq := next_rowid (groups_seq db) (map g_id (groups db))\<rparr>,
      Some (next_rowid (groups_seq db) (map g_id (groups db))))"
  by (simp add: add_group_def Let_def)

lemma add_group_replaces:
  assumes "old \<in> set (groups db)" and "g_chat_id old = c"
  shows "\<exists>db' new.
           add_group dumps db c title user fa now = (db', Some (g_id new))
         \<and> groups db' = filter (\<lambda>g. g_chat_id g \<noteq> c) (groups db) @ [new]
         \<and> g_chat_id new = c
         \<and> g_filter_accounts new = filter_json dumps fa
         \<and> g_chat_title new = title \<and> g_added_by new = user \<and> g_is_active new
         \<and> g_added_at new = now \<and> g_updated_at new = now
         \<and> g_id old < g_id new
         \<and> old \<notin> set (groups db')"
proof -
  define rowid where "rowid = next_rowid (groups_seq db) (map g_id (groups db))"
  define new where "new =
     \<lparr>g_id = rowid, g_chat_id = c, g_chat_title = title, g_is_active = True,
      g_filter_accounts = filter_json dumps fa,
      g_added_at = now, g_added_by = user, g_updated_at = now\<rparr>"
  define db' where "db' = db\<lparr>groups := filter (\<lambda>g. g_chat_id g \<noteq> c) (groups db) @ [new],
                              groups_seq := rowid\<rparr>"
  have fresh: "g_id old < rowid"
    unfolding rowid_def using assms(1) by (intro next_rowid_fresh) simp
  have 1: "add_group dumps db c title user fa now = (db', Some (g_id new))"
    unfolding add_group_eq db'_def new_def rowid_def by simp
  have 2: "groups db' = filter (\<lambda>g. g_chat_id g \<noteq> c) (groups db) @ [new]"
    unfolding db'_def by simp
  have 3: "g_chat_id new = c \<and> g_filter_accounts new = filter_json dumps fa
         \<and> g_chat_title new = title \<and> g_added_by new = user \<and> g_is_active new
         \<and> g_added_at new = now \<and> g_updated_at new = now"
    unfolding new_def by simp
  have 4: "g_id old < g_id new" using fresh unfolding new_def by simp
  have "old \<noteq> new" using 4 by auto
  then have 5: "old \<notin> set (groups db')" unfolding 2 using assms(2) by simp
  from 1 2 3 4 5 show ?thesis by blast
qed

text \<open>
  C10. Subscribing a chat that has a row already replaces the row. \<^verbatim>\<open>add_group\<close> deletes
  every row of the chat and appends one new row: it carries the filter given to the call
  (no filter for no list or an empty list, the encoded list otherwise; none when the call
  comes from the subscribe command), whatever the old row held, the
  new title and user, fresh timestamps, the active flag, and a rowid larger than the old
  one, which is the identity the call returns. The rows of other chats stay as they are.
\<close>

theorem resubscribe_replaces_row:
  assumes "old \<in> set (groups db)" and "g_chat_id old = c"
  shows "(\<exists>db' new.
           add_group dumps db c title user fa now = (db', Some (g_id new))
         \<and> groups db' = filter (\<lambda>g. g_chat_id g \<noteq> c) (groups db) @ [new]
         \<and> g_chat_id new = c
         \<and> g_filter_accounts new =
             (case fa of None \<Rightarrow> None
              | Some fs \<Rightarrow> if fs = [] then None else Some (dumps fs))
         \<and> g_chat_title new = title \<and> g_added_by new = user \<and> g_is_active new
         \<and> g_added_at new = now \<and> g_updated_at new = now
         \<and> g_id old < g_id new
         \<and> old \<notin> set (groups db'))
       \<and> (chat_type = ''group'' \<or> chat_type = ''supergroup'' \<longrightarrow>
           (\<exists>db' new.
              subscribe_command dumps db chat_type c chat_title user now = (db', Subscribed)
            \<and> groups db' = filter (\<lambda>g. g_chat_id g \<noteq> c) (groups db) @ [new]
            \<and> g_chat_id new = c
            \<and> g_filter_accounts new = None
            \<and> g_id old < g_id new
            \<and> old \<notin> set (groups db')))"
proof (intro conjI impI)
  show "\<exists>db' new.
           add_group dumps db c title user fa now = (db', Some (g_id new))
         \<and> groups db' = filter (\<lambda>g. g_chat_id g \<noteq> c) (groups db) @ [new]
         \<and> g_chat_id new = c
         \<and> g_filter_accounts new =
             (case fa of None \<Rightarrow> None
              | Some fs \<Rightarrow> if fs = [] then None else Some (dumps fs))
         \<and> g_chat_title new = title \<and> g_added_by new = user \<and> g_is_active new
         \<and> g_added_at new = now \<and> g_updated_at new = now
         \<and> g_id old < g_id new
         \<and> old \<notin> set (groups db')"
    using add_group_replaces[OF assms, of dumps title user fa now]
    unfolding filter_json_def .
next
  assume t: "chat_type = ''group'' \<or> chat_type = ''supergroup''"
  from add_group_replaces[OF assms, of dumps "or_default chat_title ''Unknown Group''" user None now]
  obtain db' new where
    a: "add_group dumps db c (or_default chat_title ''Unknown Group'') user None now
          = (db', Some (g_id new))"
    and r: "groups db' = filter (\<lambda>g. g_chat_id g \<noteq> c) (groups db) @ [new]"
           "g_chat_id new = c" "g_filter_accounts new = filter_json dumps None"
           "g_id old < g_id new" "old \<notin> set (groups db')"
    by blast
  from r(4) have "g_id new \<noteq> 0" by simp
  with a t have "subscribe_command dumps db chat_type c chat_title user now = (db', Subscribed)"
    by (auto simp: subscribe_command_def truthy_def)
  moreover from r(3) have "g_filter_accounts new = None" by (simp add: filter_json_def)
  ultimately show "\<exists>db' new.
              subscribe_command dumps db chat_type c chat_title user now = (db', Subscribed)
            \<and> groups db' = filter (\<lambda>g. g_chat_id g \<noteq> c) (groups db) @ [new]
            \<and> g_chat_id new = c
            \<and> g_filter_accounts new = None
            \<and> g_id old < g_id new
            \<and> old \<notin> set (groups db')"
    using r by blast
qed

text \<open>The group filtered to "sales" subscribes again: its row, with rowid 1, gives way
  to a row with rowid 3 and no filter. Added again with the filter "support", its row
  holds the encoded new list.\<close>

theorem resubscribe_replaces_row_witness:
  "example_groups ! 0 \<in> set (groups example_groups_store)
   \<and> g_chat_id (example_groups ! 0) = -100
   \<and> g_filter_accounts (example_groups ! 0) = Some ''[\"sales\"]''
   \<and> groups (fst (subscribe_command example_dumps example_groups_store ''group'' (-100)
                   (Some ''Sales'') 9 50)) =
     [\<lparr>g_id = 2, g_chat_id = -200, g_chat_title = ''All'', g_is_active = True,
       g_filter_accounts = None, g_added_at = 5, g_added_by = 8, g_updated_at = 5\<rparr>,
      \<lparr>g_id = 3, g_chat_id = -100, g_chat_title = ''Sales'', g_is_active = True,
       g_filter_accounts = None, g_added_at = 50, g_added_by = 9, g_updated_at = 50\<rparr>]
   \<and> snd (subscribe_command example_dumps example_groups_store ''group'' (-100)
             (Some ''Sales'') 9 50) = Subscribed
   \<and> (\<exists>db' new. add_group example_dumps example_groups_store (-100) ''Sales'' 9
                     (Some [''support'']) 50 = (db', Some (g_id new))
          \<and> groups db' =
              filter (\<lambda>g. g_chat_id g \<noteq> -100) (groups example_groups_store) @ [new]
          \<and> g_filter_accounts new = Some ''[\"support\"]''
          \<and> g_id (example_groups ! 0) < g_id new)"
proof -
  have m: "example_groups ! 0 \<in> set (groups example_groups_store)"
    by (simp add: example_groups_store_def example_groups_def)
  have c: "g_chat_id (example_groups ! 0) = -100"
    by (simp add: example_groups_def)
  have f: "g_filter_accounts (example_groups ! 0) = Some ''[\"sales\"]''"
    by (simp add: example_groups_def)
  have e: "groups (fst (subscribe_command example_dumps example_groups_store ''group'' (-100)
                   (Some ''Sales'') 9 50)) =
     [\<lparr>g_id = 2, g_chat_id = -200, g_chat_title = ''All'', g_is_active = True,
       g_filter_accounts = None, g_added_at = 5, g_added_by = 8, g_updated_at = 5\<rparr>,
      \<lparr>g_id = 3, g_chat_id = -100, g_chat_title = ''Sales'', g_is_active = True,
       g_filter_accounts = None, g_added_at = 50, g_added_by = 9, g_updated_at = 50\<rparr>]"
    by (simp add: subscribe_command_def add_group_def example_groups_store_def
        example_groups_def or_default_def next_rowid_def filter_json_def Let_def)
  note t = resubscribe_replaces_row[OF m c, where dumps=example_dumps and title="''Sales''"
      and user=9 and fa="Some [''support'']" and now=50 and chat_type="''group''"
      and chat_title="Some ''Sales''"]
  from t have "\<exists>db' new. subscribe_command example_dumps example_groups_store ''group'' (-100)
             (Some ''Sales'') 9 50 = (db', Subscribed)"
    by blast
  then have s: "snd (subscribe_command example_dumps example_groups_store ''group'' (-100)
             (Some ''Sales'') 9 50) = Subscribed"
    by auto
  from t obtain db' new where
    a: "add_group example_dumps example_groups_store (-100) ''Sales'' 9
          (Some [''support'']) 50 = (db', Some (g_id new))"
    and g: "groups db' =
              filter (\<lambda>g. g_chat_id g \<noteq> -100) (groups example_groups_store) @ [new]"
    and col: "g_filter_accounts new =
             (case Some [''support''] of None \<Rightarrow> None
              | Some fs \<Rightarrow> if fs = [] then None else Some (example_dumps fs))"
    and i: "g_id (example_groups ! 0) < g_id new"
    by blast
  from col have "g_filter_accounts new = Some ''[\"support\"]''"
    by (simp add: example_dumps_def)
  with a g i have "\<exists>db' new. add_group example_dumps example_groups_store (-100) ''Sales'' 9
                     (Some [''support'']) 50 = (db', Some (g_id new))
          \<and> groups db' =
              filter (\<lambda>g. g_chat_id g \<noteq> -100) (groups example_groups_store) @ [new]
          \<and> g_filter_accounts new = Some ''[\"support\"]''
          \<and> g_id (example_groups ! 0) < g_id new"
    by blast
  with m c f e s show ?thesis by blast
qed

subsection \<open>The filter of a destination\<close>

lemma py_in_strings:
  "py_in x (JArray (map JString fs)) = Some (x \<in> set fs)"
  by (auto simp: list_ex_iff)

lemma should_send_no_filter:
  "g_filter_accounts g = None \<Longrightarrow> should_send_to_group loads g label"
  by (simp add: should_send_to_group_def)

lemma should_send_decoded:
  assumes "g_filter_accounts g = Some txt" and "txt \<noteq> []"
      and "loads txt = Some (JArray (map JString fs))"
  shows "should_send_to_group loads g label = (label \<in> set fs)"
proof -
  have "should_send_to_group loads g label =
          (case py_in label (JArray (map JString fs)) of None \<Rightarrow> True | Some b \<Rightarrow> b)"
    using assms by (simp add: should_send_to_group_def)
  then show ?thesis unfolding py_in_strings by simp
qed

lemma update_group_filter_rows:
  "groups (fst (update_group_filter dumps db c fa now)) =
     map (\<lambda>g. if g_chat_id g = c
              then g\<lparr>g_filter_accounts := filter_json dumps fa, g_updated_at := now\<rparr>
              else g) (groups db)"
  by (simp add: update_group_filter_def)

lemma update_group_filter_col:
  assumes "g \<in> set (groups (fst (update_group_filter dumps db c fa now)))" and "g_chat_id g = c"
  shows "g_filter_accounts g = filter_json dumps fa"
proof -
  from assms(1) have "g \<in> (\<lambda>g. if g_chat_id g = c
              then g\<lparr>g_filter_accounts := filter_json dumps fa, g_updated_at := now\<rparr>
              else g) ` set (groups db)"
    unfolding update_group_filter_rows by simp
  then obtain g0 where
    g: "g = (if g_chat_id g0 = c
             then g0\<lparr>g_filter_accounts := filter_json dumps fa, g_updated_at := now\<rparr>
             else g0)"
    by (rule imageE)
  show ?thesis
  proof (cases "g_chat_id g0 = c")
    case True
    with g show ?thesis by simp
  next
    case False
    with g assms(2) show ?thesis by simp
  qed
qed

subsection \<open>The dispatcher\<close>

lemma email_exists_iff:
  "email_exists sha256 db m s subj =
     (\<exists>e \<in> set (emails db). e_email_hash e = generate_email_hash sha256 m s subj
                              \<or> e_message_id e = m)"
proof -
  have "(0 < length (filter (\<lambda>e. e_email_hash e = generate_email_hash sha256 m s subj
                              \<or> e_message_id e = m) (emails db))) =
        (filter (\<lambda>e. e_email_hash e = generate_email_hash sha256 m s subj
                              \<or> e_message_id e = m) (emails db) \<noteq> [])"
    by simp
  then show ?thesis by (simp add: email_exists_def Let_def filter_empty_conv)
qed

lemma find_None_hash:
  "(find (\<lambda>e. e_email_hash e = h) es = None) = (\<forall>e \<in> set es. e_email_hash e \<noteq> h)"
  by (auto simp: find_None_iff)

lemma add_email_existing:
  assumes "find (\<lambda>e. e_email_hash e = generate_email_hash sha256 m s subj) (emails db) = Some e"
  shows "add_email sha256 db m acct s subj prev date now = (db, Some (e_id e))"
  using assms by (simp add: add_email_def Let_def)

lemma add_email_new:
  assumes "find (\<lambda>e. e_email_hash e = generate_email_hash sha256 m s subj) (emails db) = None"
  shows "add_email sha256 db m acct s subj prev date now =
     (db\<lparr>emails := emails db @
          [\<lparr>e_id = next_rowid (emails_seq db) (map e_id (emails db)), e_message_id = m,
            e_email_account = acct, e_sender = s, e_subject = subj, e_body_preview = prev,
            e_received_date = date, e_created_at = now,
            e_email_hash = generate_email_hash sha256 m s subj\<rparr>],
          emails_seq := next_rowid (emails_seq db) (map e_id (emails db))\<rparr>,
      Some (next_rowid (emails_seq db) (map e_id (emails db))))"
  using assms by (simp add: add_email_def Let_def)




text \<open>The loop over the groups touches the delivery table only, and keeps it free of
  duplicates.\<close>

lemma add_notification_emails:
  "emails (add_notification db e g t now) = emails db"
  by (simp add: add_notification_def Let_def)


lemma send_emails:
  "emails (fst (fst (send_email_notification tg st e g c now))) = emails (fst st)"
  by (simp add: send_email_notification_def add_notification_emails split: option.splits)


lemma notify_groups_emails:
  "emails (fst (notify_groups loads tg e label now gs st)) = emails (fst st)"
  by (induction gs arbitrary: st) (simp_all add: send_emails)





text \<open>The turns of the processor, case by case.\<close>

lemma process_email_unparsed:
  "parse_email parser (raw_email item) = None \<Longrightarrow>
     process_email sha256 loads parser tg st item now = st"
  by (simp add: process_email_def)

lemma process_email_spam:
  "parse_email parser (raw_email item) = Some parsed \<Longrightarrow> p_is_spam parsed \<Longrightarrow>
     process_email sha256 loads parser tg st item now = st"
  by (simp add: process_email_def)

lemma process_email_exists:
  "parse_email parser (raw_email item) = Some parsed \<Longrightarrow>
   email_exists sha256 (fst st) (p_message_id parsed) (p_sender parsed) (p_subject parsed) \<Longrightarrow>
     process_email sha256 loads parser tg st item now = st"
  by (simp add: process_email_def)

lemma process_email_new:
  assumes p: "parse_email parser (raw_email item) = Some parsed"
      and s: "\<not> p_is_spam parsed"
      and n: "\<not> email_exists sha256 (fst st) (p_message_id parsed) (p_sender parsed)
                 (p_subject parsed)"
  shows "\<exists>row db1.
           e_message_id row = p_message_id parsed
         \<and> e_email_hash row = generate_email_hash sha256 (p_message_id parsed)
                                (p_sender parsed) (p_subject parsed)
         \<and> db1 = (fst st)\<lparr>emails := emails (fst st) @ [row], emails_seq := e_id row\<rparr>
         \<and> process_email sha256 loads parser tg st item now =
               notify_groups loads tg (e_id row) (account_label item) now
                 (get_active_groups db1) (db1, snd st)"
proof -
  define row where "row =
     \<lparr>e_id = next_rowid (emails_seq (fst st)) (map e_id (emails (fst st))),
      e_message_id = p_message_id parsed,
      e_email_account = account_label item @ '' ('' @ account_email item @ '')'',
      e_sender = p_sender parsed, e_subject = p_subject parsed,
      e_body_preview = p_body_preview parsed,
      e_received_date = p_received_date parsed, e_created_at = now,
      e_email_hash = generate_email_hash sha256 (p_message_id parsed)
                       (p_sender parsed) (p_subject parsed)\<rparr>"
  define db1 where "db1 = (fst st)\<lparr>emails := emails (fst st) @ [row], emails_seq := e_id row\<rparr>"
  from n have "find (\<lambda>e. e_email_hash e = generate_email_hash sha256 (p_message_id parsed)
                      (p_sender parsed) (p_subject parsed)) (emails (fst st)) = None"
    unfolding email_exists_iff find_None_hash by blast
  from add_email_new[OF this]
  have a: "add_email sha256 (fst st) (p_message_id parsed)
             (account_label item @ '' ('' @ account_email item @ '')'')
             (p_sender parsed) (p_subject parsed) (p_body_preview parsed)
             (p_received_date parsed) now = (db1, Some (e_id row))"
    unfolding db1_def row_def by simp
  have "e_id row \<noteq> 0" unfolding row_def by (simp add: next_rowid_pos)
  then have 1: "process_email sha256 loads parser tg st item now =
               notify_groups loads tg (e_id row) (account_label item) now
                 (get_active_groups db1) (db1, snd st)"
    unfolding process_email_def p option.case a using s n by simp
  have 2: "e_message_id row = p_message_id parsed" unfolding row_def by simp
  have 3: "e_email_hash row = generate_email_hash sha256 (p_message_id parsed)
                                (p_sender parsed) (p_subject parsed)"
    unfolding row_def by simp
  from 1 2 3 db1_def show ?thesis by blast
qed




text \<open>
  C9. The duplicate check of the dispatcher answers "exists" as soon as a stored e-mail
  carries the protocol message identifier of the candidate, whatever the sender, the
  subject and hence the fingerprint; the turn of the processor then ends at once: the
  store is left as it is (no message inserted, no delivery created) and Telegram is not
  called.
\<close>

theorem duplicate_check_by_message_id:
  "(e \<in> set (emails db) \<and> e_message_id e = message_id
      \<longrightarrow> email_exists sha256 db message_id sender subject)
   \<and> (parse_email parser (raw_email item) = Some parsed
        \<and> e \<in> set (emails (fst st)) \<and> e_message_id e = p_message_id parsed
      \<longrightarrow> process_email sha256 loads parser tg st item now = st)"
proof (intro conjI impI)
  assume "e \<in> set (emails db) \<and> e_message_id e = message_id"
  then show "email_exists sha256 db message_id sender subject"
    unfolding email_exists_iff by blast
next
  assume a: "parse_email parser (raw_email item) = Some parsed
        \<and> e \<in> set (emails (fst st)) \<and> e_message_id e = p_message_id parsed"
  then have "email_exists sha256 (fst st) (p_message_id parsed) (p_sender parsed)
               (p_subject parsed)"
    unfolding email_exists_iff by blast
  with a show "process_email sha256 loads parser tg st item now = st"
    using process_email_exists by blast
qed

lemma example_parse:
  "parse_email (EmailParser 600 None) (raw_email (example_item m)) =
     Some (example_parsed (or_default m []))"
proof -
  have 1: "\<not> is_spam (EmailParser 600 None) ''b@y.com'' ''Invoice''
              ''please find the invoice attached''"
    by code_simp
  have 2: "create_preview (EmailParser 600 None) ''please find the invoice attached'' =
             ''please find the invoice attached''"
    by code_simp
  have 3: "or_default (Some ''Invoice'') ''No Subject'' = ''Invoice''"
    by (simp add: or_default_def)
  show ?thesis
    unfolding parse_email_def example_item_def example_parsed_def
    by (simp add: 1 2 3)
qed

theorem duplicate_check_by_message_id_witness:
  "example_emails ! 1 \<in> set (emails example_mail_store)
   \<and> e_message_id (example_emails ! 1) = ''<m1@x.com>''
   \<and> e_email_hash (example_emails ! 1) \<noteq>
        generate_email_hash example_sha ''<m1@x.com>'' ''b@y.com'' ''Invoice''
   \<and> email_exists example_sha example_mail_store ''<m1@x.com>'' ''b@y.com'' ''Invoice''
   \<and> process_email example_sha example_loads (EmailParser 600 None) example_telegram
         (example_mail_store, 0) (example_item (Some ''<m1@x.com>'')) 10 =
       (example_mail_store, 0)"
proof -
  have 1: "example_emails ! 1 \<in> set (emails example_mail_store)"
    by (simp add: example_mail_store_def example_emails_def)
  have 2: "e_message_id (example_emails ! 1) = ''<m1@x.com>''"
    by (simp add: example_emails_def)
  have 3: "e_email_hash (example_emails ! 1) \<noteq>
        generate_email_hash example_sha ''<m1@x.com>'' ''b@y.com'' ''Invoice''"
    by (simp add: example_emails_def generate_email_hash_def example_sha_def)
  have 4: "parse_email (EmailParser 600 None) (raw_email (example_item (Some ''<m1@x.com>''))) =
             Some (example_parsed ''<m1@x.com>'')"
    unfolding example_parse by (simp add: or_default_def)
  have 5: "p_message_id (example_parsed ''<m1@x.com>'') = ''<m1@x.com>''"
    by (simp add: example_parsed_def)
  from duplicate_check_by_message_id[of "example_emails ! 1" example_mail_store "''<m1@x.com>''"
      example_sha "''b@y.com''" "''Invoice''" "EmailParser 600 None"
      "example_item (Some ''<m1@x.com>'')" "example_parsed ''<m1@x.com>''"
      "(example_mail_store, 0)" example_loads example_telegram 10]
    1 2 4 5
  have "email_exists example_sha example_mail_store ''<m1@x.com>'' ''b@y.com'' ''Invoice''
        \<and> process_email example_sha example_loads (EmailParser 600 None) example_telegram
         (example_mail_store, 0) (example_item (Some ''<m1@x.com>'')) 10 =
       (example_mail_store, 0)"
    by simp
  with 1 2 3 show ?thesis by blast
qed





subsection \<open>The filter in the dispatcher\<close>

lemma email_sent_iff:
  "email_sent_to_group db e g =
     (\<exists>n \<in> set (email_notifications db). n_email_id n = e \<and> n_group_id n = g)"
proof -
  have "(0 < length (filter (\<lambda>n. n_email_id n = e \<and> n_group_id n = g) (email_notifications db)))
        = (filter (\<lambda>n. n_email_id n = e \<and> n_group_id n = g) (email_notifications db) \<noteq> [])"
    by simp
  then show ?thesis by (simp add: email_sent_to_group_def filter_empty_conv)
qed

lemma add_notification_rows:
  assumes "n \<in> set (email_notifications (add_notification db e g t now))"
  shows "n \<in> set (email_notifications db) \<or> (n_email_id n = e \<and> n_group_id n = g)"
proof (cases "list_ex (\<lambda>n. n_email_id n = e \<and> n_group_id n = g) (email_notifications db)")
  case True
  with assms show ?thesis by (simp add: add_notification_def)
next
  case False
  with assms show ?thesis by (auto simp: add_notification_def Let_def)
qed

lemma add_notification_keeps:
  "n \<in> set (email_notifications db) \<Longrightarrow>
     n \<in> set (email_notifications (add_notification db e g t now))"
  by (simp add: add_notification_def Let_def)

lemma add_notification_sent:
  "email_sent_to_group (add_notification db e g t now) e g"
proof (cases "list_ex (\<lambda>n. n_email_id n = e \<and> n_group_id n = g) (email_notifications db)")
  case True
  then show ?thesis by (simp add: add_notification_def email_sent_iff list_ex_iff)
next
  case False
  then show ?thesis by (simp add: add_notification_def Let_def email_sent_iff)
qed

lemma add_notification_groups:
  "groups (add_notification db e g t now) = groups db"
  by (simp add: add_notification_def Let_def)

lemma send_rows:
  assumes "n \<in> set (email_notifications (fst (fst (send_email_notification tg st e g c now))))"
  shows "n \<in> set (email_notifications (fst st)) \<or> (n_email_id n = e \<and> n_group_id n = g)"
proof (cases "tg (snd st)")
  case None
  with assms show ?thesis by (simp add: send_email_notification_def)
next
  case (Some m)
  with assms have "n \<in> set (email_notifications (add_notification (fst st) e g m now))"
    by (simp add: send_email_notification_def)
  then show ?thesis by (rule add_notification_rows)
qed

lemma send_keeps:
  "n \<in> set (email_notifications (fst st)) \<Longrightarrow>
     n \<in> set (email_notifications (fst (fst (send_email_notification tg st e g c now))))"
  by (simp add: send_email_notification_def add_notification_keeps split: option.splits)

lemma send_sent:
  "tg (snd st) \<noteq> None \<Longrightarrow>
     email_sent_to_group (fst (fst (send_email_notification tg st e g c now))) e g"
  by (auto simp: send_email_notification_def add_notification_sent)

text \<open>Every delivery row the loop adds is a row of the message for a group of the list
  that passed the check.\<close>

lemma notify_groups_rows:
  "n \<in> set (email_notifications (fst (notify_groups loads tg e label now gs st))) \<Longrightarrow>
     n \<in> set (email_notifications (fst st))
     \<or> (n_email_id n = e
        \<and> (\<exists>g \<in> set gs. n_group_id n = g_id g \<and> should_send_to_group loads g label))"
proof (induction gs arbitrary: st)
  case Nil
  then show ?case by simp
next
  case (Cons grp gs)
  show ?case
  proof (cases "should_send_to_group loads grp label
                \<and> \<not> email_sent_to_group (fst st) e (g_id grp)")
    case True
    with Cons.prems have
      "n \<in> set (email_notifications (fst (notify_groups loads tg e label now gs
             (fst (send_email_notification tg st e (g_id grp) (g_chat_id grp) now)))))"
      by simp
    from Cons.IH[OF this] show ?thesis
    proof
      assume "n \<in> set (email_notifications
                 (fst (fst (send_email_notification tg st e (g_id grp) (g_chat_id grp) now))))"
      from send_rows[OF this] True show ?thesis by auto
    next
      assume "n_email_id n = e
        \<and> (\<exists>g \<in> set gs. n_group_id n = g_id g \<and> should_send_to_group loads g label)"
      then show ?thesis by auto
    qed
  next
    case False
    with Cons.prems have
      "n \<in> set (email_notifications (fst (notify_groups loads tg e label now gs st)))"
      by (auto split: if_splits)
    from Cons.IH[OF this] show ?thesis by auto
  qed
qed

lemma notify_groups_keeps:
  "n \<in> set (email_notifications (fst st)) \<Longrightarrow>
     n \<in> set (email_notifications (fst (notify_groups loads tg e label now gs st)))"
  by (induction gs arbitrary: st) (simp_all add: send_keeps)

lemma notify_groups_sent_keeps:
  "email_sent_to_group (fst st) e g \<Longrightarrow>
     email_sent_to_group (fst (notify_groups loads tg e' label now gs st)) e g"
  unfolding email_sent_iff using notify_groups_keeps by blast

text \<open>With a Telegram that sends every message, every group of the list that passes the
  check has its delivery row after the loop.\<close>

lemma notify_groups_delivers:
  "\<forall>k. tg k \<noteq> None \<Longrightarrow> g \<in> set gs \<Longrightarrow> should_send_to_group loads g label \<Longrightarrow>
     email_sent_to_group (fst (notify_groups loads tg e label now gs st)) e (g_id g)"
proof (induction gs arbitrary: st)
  case Nil
  then show ?case by simp
next
  case (Cons grp gs)
  show ?case
  proof (cases "g = grp")
    case True
    show ?thesis
    proof (cases "email_sent_to_group (fst st) e (g_id grp)")
      case sent: True
      then have "email_sent_to_group (fst (notify_groups loads tg e label now gs st)) e (g_id grp)"
        by (rule notify_groups_sent_keeps)
      with True Cons.prems(3) sent show ?thesis by simp
    next
      case False
      from Cons.prems(1) have "tg (snd st) \<noteq> None" by simp
      then have "email_sent_to_group
                   (fst (fst (send_email_notification tg st e (g_id grp) (g_chat_id grp) now)))
                   e (g_id grp)"
        by (rule send_sent)
      then have "email_sent_to_group (fst (notify_groups loads tg e label now gs
                   (fst (send_email_notification tg st e (g_id grp) (g_chat_id grp) now))))
                   e (g_id grp)"
        by (rule notify_groups_sent_keeps)
      with True Cons.prems(3) False show ?thesis by simp
    qed
  next
    case False
    with Cons.prems(2) have "g \<in> set gs" by simp
    from Cons.IH[OF Cons.prems(1) this Cons.prems(3)] show ?thesis by simp
  qed
qed

lemma process_email_rows:
  assumes "n \<in> set (email_notifications (fst (process_email sha256 loads parser tg st item now)))"
  shows "n \<in> set (email_notifications (fst st))
     \<or> (\<exists>g \<in> set (get_active_groups (fst st)).
           n_group_id n = g_id g \<and> should_send_to_group loads g (account_label item))"
proof (cases "parse_email parser (raw_email item)")
  case None
  with assms show ?thesis by (simp add: process_email_unparsed)
next
  case (Some parsed)
  show ?thesis
  proof (cases "p_is_spam parsed
                \<or> email_exists sha256 (fst st) (p_message_id parsed) (p_sender parsed)
                     (p_subject parsed)")
    case True
    then have "process_email sha256 loads parser tg st item now = st"
      using Some process_email_spam process_email_exists by blast
    with assms show ?thesis by simp
  next
    case False
    then have s: "\<not> p_is_spam parsed"
      and x: "\<not> email_exists sha256 (fst st) (p_message_id parsed) (p_sender parsed)
                 (p_subject parsed)"
      by simp_all
    from process_email_new[OF Some s x, where loads=loads and tg=tg and now=now]
    obtain row db1 where
      d: "db1 = (fst st)\<lparr>emails := emails (fst st) @ [row], emails_seq := e_id row\<rparr>"
      and e: "process_email sha256 loads parser tg st item now =
               notify_groups loads tg (e_id row) (account_label item) now
                 (get_active_groups db1) (db1, snd st)"
      by blast
    from d have g: "get_active_groups db1 = get_active_groups (fst st)"
      by (simp add: get_active_groups_def)
    from d have m: "email_notifications db1 = email_notifications (fst st)" by simp
    from assms have "n \<in> set (email_notifications (fst (notify_groups loads tg (e_id row)
              (account_label item) now (get_active_groups (fst st)) (db1, snd st))))"
      unfolding e g .
    from notify_groups_rows[OF this] show ?thesis unfolding fst_conv m by blast
  qed
qed

lemma process_email_delivers:
  assumes p: "parse_email parser (raw_email item) = Some parsed"
      and s: "\<not> p_is_spam parsed"
      and x: "\<not> email_exists sha256 (fst st) (p_message_id parsed) (p_sender parsed)
                 (p_subject parsed)"
      and t: "\<forall>k. tg k \<noteq> None"
      and g: "g \<in> set (get_active_groups (fst st))"
      and f: "should_send_to_group loads g (account_label item)"
  shows "\<exists>e \<in> set (emails (fst (process_email sha256 loads parser tg st item now))).
           e_message_id e = p_message_id parsed
         \<and> e \<notin> set (emails (fst st))
         \<and> email_sent_to_group (fst (process_email sha256 loads parser tg st item now))
             (e_id e) (g_id g)"
proof -
  from process_email_new[OF p s x, where loads=loads and tg=tg and now=now]
  obtain row db1 where
    r: "e_message_id row = p_message_id parsed"
    and d: "db1 = (fst st)\<lparr>emails := emails (fst st) @ [row], emails_seq := e_id row\<rparr>"
    and e: "process_email sha256 loads parser tg st item now =
               notify_groups loads tg (e_id row) (account_label item) now
                 (get_active_groups db1) (db1, snd st)"
    by blast
  from d have ga: "get_active_groups db1 = get_active_groups (fst st)"
    by (simp add: get_active_groups_def)
  have em: "emails (fst (process_email sha256 loads parser tg st item now)) = emails (fst st) @ [row]"
    unfolding e notify_groups_emails using d by simp
  from x r have "row \<notin> set (emails (fst st))"
    unfolding email_exists_iff by auto
  moreover have "email_sent_to_group (fst (process_email sha256 loads parser tg st item now))
             (e_id row) (g_id g)"
    unfolding e ga using t g f by (rule notify_groups_delivers)
  ultimately show ?thesis using em r by auto
qed

lemma group_by_id:
  assumes "distinct (map g_id gs)" and "a \<in> set gs" and "b \<in> set gs" and "g_id a = g_id b"
  shows "a = b"
proof -
  from assms(1) have "inj_on g_id (set gs)" by (simp add: distinct_map)
  from this assms(4,2,3) show ?thesis by (rule inj_onD)
qed

text \<open>
  C5. Filter correctness. For every group row and every account label, the check answers
  true when the row has no filter; when the row holds a filter text that decodes to the
  list of strings \<open>fs\<close>, it answers true exactly when the label is in \<open>fs\<close>. The writers
  of the column store \<open>dumps fs\<close> for a non-empty list and no filter for an empty one, so
  with a decoder that inverts the encoder on \<open>fs\<close>, an active group whose filter was set to
  \<open>fs\<close> passes the check exactly for the labels of \<open>fs\<close> (every label when \<open>fs\<close> is empty).
  The dispatcher delivers by this check: the active groups are the rows with the active
  flag; every delivery row that the loop over the groups, or a turn of the queue processor,
  adds to the store belongs to an active group that passes the check for the account label
  of the message; so a delivery to a group filtered to "sales" is a delivery of a message
  labelled sales. And when Telegram accepts every message, a new message that is not spam
  is delivered to every active group that passes the check for its label, to an unfiltered
  group whatever the label.
\<close>

theorem filter_correctness:
  "(g_filter_accounts g = None \<longrightarrow> should_send_to_group loads g label)
   \<and> (g_filter_accounts g = Some txt \<and> txt \<noteq> [] \<and> loads txt = Some (JArray (map JString fs))
        \<longrightarrow> should_send_to_group loads g label = (label \<in> set fs))
   \<and> (d \<in> set (get_active_groups (fst (update_group_filter dumps db c (Some fs) now)))
        \<and> g_chat_id d = c \<and> dumps fs \<noteq> [] \<and> loads (dumps fs) = Some (JArray (map JString fs))
        \<longrightarrow> should_send_to_group loads d label = (fs = [] \<or> label \<in> set fs))
   \<and> (d \<in> set (get_active_groups (fst (update_group_filter dumps db c (Some [''sales'']) now)))
        \<and> g_chat_id d = c \<and> dumps [''sales''] \<noteq> []
        \<and> loads (dumps [''sales'']) = Some (JArray [JString ''sales''])
        \<longrightarrow> should_send_to_group loads d label = (label = ''sales''))
   \<and> set (get_active_groups db) = {a \<in> set (groups db). g_is_active a}
   \<and> (\<forall>n \<in> set (email_notifications (fst (notify_groups loads tg email_id label now gs st))).
         n \<in> set (email_notifications (fst st))
         \<or> (n_email_id n = email_id
            \<and> (\<exists>a \<in> set gs. n_group_id n = g_id a \<and> should_send_to_group loads a label)))
   \<and> (\<forall>n \<in> set (email_notifications
                    (fst (process_email sha256 loads parser tg st item now))).
         n \<in> set (email_notifications (fst st))
         \<or> (\<exists>a \<in> set (groups (fst st)). g_is_active a \<and> n_group_id n = g_id a
                \<and> should_send_to_group loads a (account_label item)))
   \<and> (distinct (map g_id (groups (fst st)))
        \<and> sg \<in> set (groups (fst st)) \<and> g_is_active sg
        \<and> g_filter_accounts sg = Some stxt \<and> stxt \<noteq> []
        \<and> loads stxt = Some (JArray [JString ''sales''])
        \<and> m \<in> set (email_notifications
                      (fst (process_email sha256 loads parser tg st item now)))
        \<and> m \<notin> set (email_notifications (fst st)) \<and> n_group_id m = g_id sg
        \<longrightarrow> account_label item = ''sales'')
   \<and> (parse_email parser (raw_email item) = Some parsed \<and> \<not> p_is_spam parsed
        \<and> \<not> email_exists sha256 (fst st) (p_message_id parsed) (p_sender parsed)
              (p_subject parsed)
        \<and> (\<forall>k. tg k \<noteq> None)
        \<and> u \<in> set (groups (fst st)) \<and> g_is_active u
        \<and> (g_filter_accounts u = None \<or> should_send_to_group loads u (account_label item))
        \<longrightarrow> (\<exists>e n. e \<in> set (emails (fst (process_email sha256 loads parser tg st item now)))
                  \<and> e \<notin> set (emails (fst st))
                  \<and> e_message_id e = p_message_id parsed
                  \<and> n \<in> set (email_notifications
                                (fst (process_email sha256 loads parser tg st item now)))
                  \<and> n_email_id n = e_id e \<and> n_group_id n = g_id u))"
proof (intro conjI impI ballI)
  show "should_send_to_group loads g label" if "g_filter_accounts g = None"
    using that by (rule should_send_no_filter)
  show "should_send_to_group loads g label = (label \<in> set fs)"
    if "g_filter_accounts g = Some txt \<and> txt \<noteq> [] \<and> loads txt = Some (JArray (map JString fs))"
  proof -
    from that have 1: "g_filter_accounts g = Some txt" and 2: "txt \<noteq> []"
      and 3: "loads txt = Some (JArray (map JString fs))" by simp_all
    from 1 2 3 show ?thesis by (rule should_send_decoded)
  qed
  show "set (get_active_groups db) = {a \<in> set (groups db). g_is_active a}"
    by (simp add: get_active_groups_def)
next
  assume a: "d \<in> set (get_active_groups (fst (update_group_filter dumps db c (Some fs) now)))
        \<and> g_chat_id d = c \<and> dumps fs \<noteq> [] \<and> loads (dumps fs) = Some (JArray (map JString fs))"
  then have "d \<in> set (groups (fst (update_group_filter dumps db c (Some fs) now)))"
    by (simp add: get_active_groups_def)
  moreover from a have "g_chat_id d = c" by simp
  ultimately have col: "g_filter_accounts d = filter_json dumps (Some fs)"
    by (rule update_group_filter_col)
  show "should_send_to_group loads d label = (fs = [] \<or> label \<in> set fs)"
  proof (cases "fs = []")
    case True
    with col have "g_filter_accounts d = None" by (simp add: filter_json_def)
    with True show ?thesis by (simp add: should_send_no_filter)
  next
    case False
    with col have "g_filter_accounts d = Some (dumps fs)" by (simp add: filter_json_def)
    moreover from a have "dumps fs \<noteq> []" by simp
    moreover from a have "loads (dumps fs) = Some (JArray (map JString fs))" by simp
    ultimately have "should_send_to_group loads d label = (label \<in> set fs)"
      by (rule should_send_decoded)
    with False show ?thesis by simp
  qed
next
  assume a: "d \<in> set (get_active_groups (fst (update_group_filter dumps db c (Some [''sales'']) now)))
        \<and> g_chat_id d = c \<and> dumps [''sales''] \<noteq> []
        \<and> loads (dumps [''sales'']) = Some (JArray [JString ''sales''])"
  then have "d \<in> set (groups (fst (update_group_filter dumps db c (Some [''sales'']) now)))"
    by (simp add: get_active_groups_def)
  moreover from a have "g_chat_id d = c" by simp
  ultimately have "g_filter_accounts d = filter_json dumps (Some [''sales''])"
    by (rule update_group_filter_col)
  then have "g_filter_accounts d = Some (dumps [''sales''])" by (simp add: filter_json_def)
  moreover from a have "dumps [''sales''] \<noteq> []" by simp
  moreover from a have "loads (dumps [''sales'']) = Some (JArray (map JString [''sales'']))" by simp
  ultimately have "should_send_to_group loads d label = (label \<in> set [''sales''])"
    by (rule should_send_decoded)
  then show "should_send_to_group loads d label = (label = ''sales'')" by simp
next
  fix n
  assume "n \<in> set (email_notifications (fst (notify_groups loads tg email_id label now gs st)))"
  then show "n \<in> set (email_notifications (fst st))
         \<or> (n_email_id n = email_id
            \<and> (\<exists>a \<in> set gs. n_group_id n = g_id a \<and> should_send_to_group loads a label))"
    by (rule notify_groups_rows)
next
  fix n
  assume "n \<in> set (email_notifications (fst (process_email sha256 loads parser tg st item now)))"
  from process_email_rows[OF this]
  show "n \<in> set (email_notifications (fst st))
         \<or> (\<exists>a \<in> set (groups (fst st)). g_is_active a \<and> n_group_id n = g_id a
                \<and> should_send_to_group loads a (account_label item))"
    by (auto simp: get_active_groups_def)
next
  assume a: "distinct (map g_id (groups (fst st)))
        \<and> sg \<in> set (groups (fst st)) \<and> g_is_active sg
        \<and> g_filter_accounts sg = Some stxt \<and> stxt \<noteq> []
        \<and> loads stxt = Some (JArray [JString ''sales''])
        \<and> m \<in> set (email_notifications
                      (fst (process_email sha256 loads parser tg st item now)))
        \<and> m \<notin> set (email_notifications (fst st)) \<and> n_group_id m = g_id sg"
  then have "m \<in> set (email_notifications
                      (fst (process_email sha256 loads parser tg st item now)))"
    by simp
  from process_email_rows[OF this] a obtain b where
    b: "b \<in> set (get_active_groups (fst st))" "n_group_id m = g_id b"
       "should_send_to_group loads b (account_label item)"
    by blast
  from b(1) have bg: "b \<in> set (groups (fst st))" by (simp add: get_active_groups_def)
  from a have dist: "distinct (map g_id (groups (fst st)))" and sgg: "sg \<in> set (groups (fst st))"
    by simp_all
  from a b(2) have "g_id b = g_id sg" by simp
  with dist bg sgg have "b = sg" by (rule group_by_id)
  with b(3) have s: "should_send_to_group loads sg (account_label item)" by simp
  from a have 1: "g_filter_accounts sg = Some stxt" and 2: "stxt \<noteq> []"
    and 3: "loads stxt = Some (JArray (map JString [''sales'']))" by simp_all
  from 1 2 3 have "should_send_to_group loads sg (account_label item)
                     = (account_label item \<in> set [''sales''])"
    by (rule should_send_decoded)
  with s show "account_label item = ''sales''" by simp
next
  assume a: "parse_email parser (raw_email item) = Some parsed \<and> \<not> p_is_spam parsed
        \<and> \<not> email_exists sha256 (fst st) (p_message_id parsed) (p_sender parsed)
              (p_subject parsed)
        \<and> (\<forall>k. tg k \<noteq> None)
        \<and> u \<in> set (groups (fst st)) \<and> g_is_active u
        \<and> (g_filter_accounts u = None \<or> should_send_to_group loads u (account_label item))"
  then have p: "parse_email parser (raw_email item) = Some parsed"
    and s: "\<not> p_is_spam parsed"
    and x: "\<not> email_exists sha256 (fst st) (p_message_id parsed) (p_sender parsed)
              (p_subject parsed)"
    and t: "\<forall>k. tg k \<noteq> None"
    by simp_all
  from a have g: "u \<in> set (get_active_groups (fst st))" by (simp add: get_active_groups_def)
  from a have f: "should_send_to_group loads u (account_label item)"
    using should_send_no_filter by blast
  from process_email_delivers[OF p s x t g f, of now] obtain e where
    e: "e \<in> set (emails (fst (process_email sha256 loads parser tg st item now)))"
       "e_message_id e = p_message_id parsed" "e \<notin> set (emails (fst st))"
       "email_sent_to_group (fst (process_email sha256 loads parser tg st item now))
             (e_id e) (g_id u)"
    by blast
  from e(4) obtain n where
    "n \<in> set (email_notifications (fst (process_email sha256 loads parser tg st item now)))"
    "n_email_id n = e_id e" "n_group_id n = g_id u"
    unfolding email_sent_iff by blast
  with e(1-3) show "\<exists>e n. e \<in> set (emails (fst (process_email sha256 loads parser tg st item now)))
                  \<and> e \<notin> set (emails (fst st))
                  \<and> e_message_id e = p_message_id parsed
                  \<and> n \<in> set (email_notifications
                                (fst (process_email sha256 loads parser tg st item now)))
                  \<and> n_email_id n = e_id e \<and> n_group_id n = g_id u"
    by blast
qed

text \<open>The two groups of the example, the first filtered to "sales": a new message from the
  account "support" is delivered to the second group only; the same message from the
  account "sales" is delivered to both. A group whose filter is set to "sales" passes the
  check for that label alone.\<close>

lemma example_run_support:
  "process_email example_sha example_loads (EmailParser 600 None) example_telegram
     (example_mail_store, 0) (example_item (Some ''<m2@y.com>'')) 10 =
     (example_mail_store
        \<lparr>emails := example_emails @
           [\<lparr>e_id = 3, e_message_id = ''<m2@y.com>'',
             e_email_account = ''support (support@corp.example)'',
             e_sender = ''b@y.com'', e_subject = ''Invoice'',
             e_body_preview = ''please find the invoice attached'',
             e_received_date = 5, e_created_at = 10,
             e_email_hash = ''<m2@y.com>|b@y.com|Invoice''\<rparr>],
          emails_seq := 3,
          email_notifications :=
            [\<lparr>n_id = 1, n_email_id = 3, n_group_id = 2, n_telegram_message_id = Some 500,
              n_is_handled = False, n_handled_at = None, n_handled_by = None,
              n_created_at = 10\<rparr>],
          email_notifications_seq := 1\<rparr>, 1)"
proof -
  have 1: "parse_email (EmailParser 600 None) (raw_email (example_item (Some ''<m2@y.com>''))) =
     Some (example_parsed ''<m2@y.com>'')"
    unfolding example_parse by (simp add: or_default_def)
  show ?thesis
    unfolding process_email_def 1 option.case
    by (simp add: example_parsed_def email_exists_def add_email_def generate_email_hash_def
        example_sha_def example_mail_store_def example_emails_def example_item_def
        next_rowid_def get_active_groups_def example_groups_def should_send_to_group_def
        example_loads_def email_sent_to_group_def send_email_notification_def
        example_telegram_def add_notification_def Let_def)
qed

lemma example_run_sales:
  "process_email example_sha example_loads (EmailParser 600 None) example_telegram
     (example_mail_store, 0)
     ((example_item (Some ''<m2@y.com>''))\<lparr>account_label := ''sales''\<rparr>) 10 =
     (example_mail_store
        \<lparr>emails := example_emails @
           [\<lparr>e_id = 3, e_message_id = ''<m2@y.com>'',
             e_email_account = ''sales (support@corp.example)'',
             e_sender = ''b@y.com'', e_subject = ''Invoice'',
             e_body_preview = ''please find the invoice attached'',
             e_received_date = 5, e_created_at = 10,
             e_email_hash = ''<m2@y.com>|b@y.com|Invoice''\<rparr>],
          emails_seq := 3,
          email_notifications :=
            [\<lparr>n_id = 1, n_email_id = 3, n_group_id = 1, n_telegram_message_id = Some 500,
              n_is_handled = False, n_handled_at = None, n_handled_by = None,
              n_created_at = 10\<rparr>,
             \<lparr>n_id = 2, n_email_id = 3, n_group_id = 2, n_telegram_message_id = Some 501,
              n_is_handled = False, n_handled_at = None, n_handled_by = None,
              n_created_at = 10\<rparr>],
          email_notifications_seq := 2\<rparr>, 2)"
proof -
  have 1: "parse_email (EmailParser 600 None)
             (raw_email ((example_item (Some ''<m2@y.com>''))\<lparr>account_label := ''sales''\<rparr>)) =
     Some (example_parsed ''<m2@y.com>'')"
    using example_parse[of "Some ''<m2@y.com>''"] by (simp add: or_default_def)
  have j: "py_in ''sales'' (JArray [JString ''sales'']) = Some True" by simp
  show ?thesis
    unfolding process_email_def 1 option.case
    by (simp add: example_parsed_def email_exists_def add_email_def generate_email_hash_def
        example_sha_def example_mail_store_def example_emails_def example_item_def
        next_rowid_def get_active_groups_def example_groups_def should_send_to_group_def
        example_loads_def email_sent_to_group_def send_email_notification_def
        example_telegram_def add_notification_def Let_def)
qed

theorem filter_correctness_witness:
  "g_filter_accounts (example_groups ! 0) = Some ''[\"sales\"]''
   \<and> example_loads ''[\"sales\"]'' = Some (JArray (map JString [''sales'']))
   \<and> should_send_to_group example_loads (example_groups ! 0) ''sales''
   \<and> \<not> should_send_to_group example_loads (example_groups ! 0) ''support''
   \<and> g_filter_accounts (example_groups ! 1) = None
   \<and> should_send_to_group example_loads (example_groups ! 1) ''support''
   \<and> (example_groups ! 1)\<lparr>g_filter_accounts := Some ''[\"sales\"]'', g_updated_at := 30\<rparr>
        \<in> set (get_active_groups
                 (fst (update_group_filter example_dumps example_groups_store (-200)
                         (Some [''sales'']) 30)))
   \<and> \<not> should_send_to_group example_loads
          ((example_groups ! 1)\<lparr>g_filter_accounts := Some ''[\"sales\"]'', g_updated_at := 30\<rparr>)
          ''support''
   \<and> should_send_to_group example_loads
          ((example_groups ! 1)\<lparr>g_filter_accounts := Some ''[\"sales\"]'', g_updated_at := 30\<rparr>)
          ''sales''
   \<and> email_notifications
        (fst (process_email example_sha example_loads (EmailParser 600 None) example_telegram
                (example_mail_store, 0) (example_item (Some ''<m2@y.com>'')) 10)) =
       [\<lparr>n_id = 1, n_email_id = 3, n_group_id = 2, n_telegram_message_id = Some 500,
         n_is_handled = False, n_handled_at = None, n_handled_by = None, n_created_at = 10\<rparr>]
   \<and> (\<exists>a. a \<in> set (groups example_mail_store) \<and> g_is_active a \<and> g_id a = 2
          \<and> should_send_to_group example_loads a ''support'')
   \<and> email_notifications
        (fst (process_email example_sha example_loads (EmailParser 600 None) example_telegram
                (example_mail_store, 0)
                ((example_item (Some ''<m2@y.com>''))\<lparr>account_label := ''sales''\<rparr>) 10)) =
       [\<lparr>n_id = 1, n_email_id = 3, n_group_id = 1, n_telegram_message_id = Some 500,
         n_is_handled = False, n_handled_at = None, n_handled_by = None, n_created_at = 10\<rparr>,
        \<lparr>n_id = 2, n_email_id = 3, n_group_id = 2, n_telegram_message_id = Some 501,
         n_is_handled = False, n_handled_at = None, n_handled_by = None, n_created_at = 10\<rparr>]
   \<and> distinct (map g_id (groups example_mail_store))
   \<and> account_label ((example_item (Some ''<m2@y.com>''))\<lparr>account_label := ''sales''\<rparr>)
        = ''sales''
   \<and> (\<exists>e n. e \<in> set (emails (fst (process_email example_sha example_loads
                      (EmailParser 600 None) example_telegram (example_mail_store, 0)
                      (example_item (Some ''<m2@y.com>'')) 10)))
          \<and> e \<notin> set (emails example_mail_store)
          \<and> e_message_id e = ''<m2@y.com>''
          \<and> n \<in> set (email_notifications (fst (process_email example_sha example_loads
                      (EmailParser 600 None) example_telegram (example_mail_store, 0)
                      (example_item (Some ''<m2@y.com>'')) 10)))
          \<and> n_email_id n = e_id e \<and> n_group_id n = 2)"
proof -
  let ?P = "EmailParser 600 None"
  let ?support = "example_item (Some ''<m2@y.com>'')"
  let ?sales = "(example_item (Some ''<m2@y.com>''))\<lparr>account_label := ''sales''\<rparr>"
  let ?d = "(example_groups ! 1)\<lparr>g_filter_accounts := Some ''[\"sales\"]'', g_updated_at := 30\<rparr>"
  let ?n1 = "\<lparr>n_id = 1, n_email_id = 3, n_group_id = 1, n_telegram_message_id = Some 500,
         n_is_handled = False, n_handled_at = None, n_handled_by = None, n_created_at = 10\<rparr>"
  let ?n2 = "\<lparr>n_id = 1, n_email_id = 3, n_group_id = 2, n_telegram_message_id = Some 500,
         n_is_handled = False, n_handled_at = None, n_handled_by = None, n_created_at = 10\<rparr>"
  have 1: "g_filter_accounts (example_groups ! 0) = Some ''[\"sales\"]''"
    by (simp add: example_groups_def)
  have 2: "example_loads ''[\"sales\"]'' = Some (JArray (map JString [''sales'']))"
    by (simp add: example_loads_def)
  have 3: "g_filter_accounts (example_groups ! 1) = None"
    by (simp add: example_groups_def)
  have ne: "''[\"sales\"]'' \<noteq> []" by simp
  from filter_correctness[where g="example_groups ! 0" and loads=example_loads
      and label="''sales''" and ?txt="''[\"sales\"]''" and fs="[''sales'']"] 1 2 ne
  have a: "should_send_to_group example_loads (example_groups ! 0) ''sales''" by simp
  from filter_correctness[where g="example_groups ! 0" and loads=example_loads
      and label="''support''" and ?txt="''[\"sales\"]''" and fs="[''sales'']"] 1 2 ne
  have b: "\<not> should_send_to_group example_loads (example_groups ! 0) ''support''" by simp
  from filter_correctness[where g="example_groups ! 1" and loads=example_loads
      and label="''support''"] 3
  have c: "should_send_to_group example_loads (example_groups ! 1) ''support''" by simp
  have u1: "?d \<in> set (get_active_groups
                 (fst (update_group_filter example_dumps example_groups_store (-200)
                         (Some [''sales'']) 30)))"
    by (simp add: get_active_groups_def update_group_filter_def example_groups_store_def
        example_groups_def filter_json_def example_dumps_def)
  have u2: "g_chat_id ?d = -200" by (simp add: example_groups_def)
  have u3: "example_dumps [''sales''] \<noteq> []" by (simp add: example_dumps_def)
  have u4: "example_loads (example_dumps [''sales'']) = Some (JArray [JString ''sales''])"
    by (simp add: example_dumps_def example_loads_def)
  from filter_correctness[where d="?d" and dumps=example_dumps and db=example_groups_store
      and c="-200" and now=30 and loads=example_loads and label="''support''"] u1 u2 u3 u4
  have d1: "\<not> should_send_to_group example_loads ?d ''support''" by simp
  from filter_correctness[where d="?d" and dumps=example_dumps and db=example_groups_store
      and c="-200" and now=30 and loads=example_loads and label="''sales''"] u1 u2 u3 u4
  have d2: "should_send_to_group example_loads ?d ''sales''" by simp
  have r1: "email_notifications (fst (process_email example_sha example_loads ?P
               example_telegram (example_mail_store, 0) ?support 10)) = [?n2]"
    unfolding example_run_support by simp
  have r2: "email_notifications (fst (process_email example_sha example_loads ?P
               example_telegram (example_mail_store, 0) ?sales 10)) =
            [?n1, ?n2\<lparr>n_id := 2, n_telegram_message_id := Some 501\<rparr>]"
    unfolding example_run_sales by simp
  have empty: "email_notifications (fst (example_mail_store, 0::nat)) = []"
    by (simp add: example_mail_store_def)
  have l: "account_label ?support = ''support''" by (simp add: example_item_def)
  have "?n2 \<in> set (email_notifications (fst (process_email example_sha example_loads ?P
               example_telegram (example_mail_store, 0) ?support 10)))"
    unfolding r1 by simp
  with filter_correctness[where ?sha256.0=example_sha and loads=example_loads and parser="?P"
      and tg=example_telegram and st="(example_mail_store, 0)" and item="?support" and now=10]
  have "?n2 \<in> set (email_notifications (fst (example_mail_store, 0::nat)))
         \<or> (\<exists>a \<in> set (groups (fst (example_mail_store, 0::nat))). g_is_active a
                \<and> n_group_id ?n2 = g_id a
                \<and> should_send_to_group example_loads a (account_label ?support))"
    by blast
  then have e: "\<exists>a. a \<in> set (groups example_mail_store) \<and> g_is_active a \<and> g_id a = 2
          \<and> should_send_to_group example_loads a ''support''"
    unfolding empty l by auto
  have dist: "distinct (map g_id (groups example_mail_store))"
    by (simp add: example_mail_store_def example_groups_def)
  have s1: "example_groups ! 0 \<in> set (groups (fst (example_mail_store, 0::nat)))"
    by (simp add: example_mail_store_def example_groups_def)
  have s2: "g_is_active (example_groups ! 0)" by (simp add: example_groups_def)
  have s3: "example_loads ''[\"sales\"]'' = Some (JArray [JString ''sales''])"
    by (simp add: example_loads_def)
  have s4: "?n1 \<in> set (email_notifications (fst (process_email example_sha example_loads ?P
               example_telegram (example_mail_store, 0) ?sales 10)))"
    unfolding r2 by simp
  have s5: "?n1 \<notin> set (email_notifications (fst (example_mail_store, 0::nat)))"
    unfolding empty by simp
  have s6: "n_group_id ?n1 = g_id (example_groups ! 0)" by (simp add: example_groups_def)
  from dist have dist': "distinct (map g_id (groups (fst (example_mail_store, 0::nat))))" by simp
  from filter_correctness[where ?sha256.0=example_sha and loads=example_loads and parser="?P"
      and tg=example_telegram and st="(example_mail_store, 0)" and item="?sales" and now=10
      and sg="example_groups ! 0" and stxt="''[\"sales\"]''" and m="?n1"]
    dist' s1 s2 1 ne s3 s4 s5 s6
  have f: "account_label ?sales = ''sales''" by blast
  have p1: "parse_email ?P (raw_email ?support) = Some (example_parsed ''<m2@y.com>'')"
    unfolding example_parse by (simp add: or_default_def)
  have p2: "\<not> p_is_spam (example_parsed ''<m2@y.com>'')"
    by (simp add: example_parsed_def)
  have p3: "\<not> email_exists example_sha (fst (example_mail_store, 0::nat))
         (p_message_id (example_parsed ''<m2@y.com>''))
         (p_sender (example_parsed ''<m2@y.com>''))
         (p_subject (example_parsed ''<m2@y.com>''))"
    by (simp add: email_exists_def example_mail_store_def example_emails_def
        example_parsed_def generate_email_hash_def example_sha_def)
  have p4: "\<forall>k. example_telegram k \<noteq> None" by (simp add: example_telegram_def)
  have p5: "example_groups ! 1 \<in> set (groups (fst (example_mail_store, 0::nat)))"
    by (simp add: example_mail_store_def example_groups_def)
  have p6: "g_is_active (example_groups ! 1)" by (simp add: example_groups_def)
  have p7: "g_id (example_groups ! 1) = 2" by (simp add: example_groups_def)
  have p8: "p_message_id (example_parsed ''<m2@y.com>'') = ''<m2@y.com>''"
    by (simp add: example_parsed_def)
  from filter_correctness[where ?sha256.0=example_sha and loads=example_loads and parser="?P"
      and tg=example_telegram and st="(example_mail_store, 0)" and item="?support" and now=10
      and parsed="example_parsed ''<m2@y.com>''" and u="example_groups ! 1"]
    p1 p2 p3 p4 p5 p6 3
  have "\<exists>e n. e \<in> set (emails (fst (process_email example_sha example_loads ?P
                      example_telegram (example_mail_store, 0) ?support 10)))
          \<and> e \<notin> set (emails (fst (example_mail_store, 0::nat)))
          \<and> e_message_id e = p_message_id (example_parsed ''<m2@y.com>'')
          \<and> n \<in> set (email_notifications (fst (process_email example_sha example_loads ?P
                      example_telegram (example_mail_store, 0) ?support 10)))
          \<and> n_email_id n = e_id e \<and> n_group_id n = g_id (example_groups ! 1)"
    by blast
  then have h: "\<exists>e n. e \<in> set (emails (fst (process_email example_sha example_loads ?P
                      example_telegram (example_mail_store, 0) ?support 10)))
          \<and> e \<notin> set (emails example_mail_store)
          \<and> e_message_id e = ''<m2@y.com>''
          \<and> n \<in> set (email_notifications (fst (process_email example_sha example_loads ?P
                      example_telegram (example_mail_store, 0) ?support 10)))
          \<and> n_email_id n = e_id e \<and> n_group_id n = 2"
    unfolding p7 p8 fst_conv .
  from r2 have r2': "email_notifications (fst (process_email example_sha example_loads ?P
               example_telegram (example_mail_store, 0) ?sales 10)) =
       [?n1,
        \<lparr>n_id = 2, n_email_id = 3, n_group_id = 2, n_telegram_message_id = Some 501,
         n_is_handled = False, n_handled_at = None, n_handled_by = None, n_created_at = 10\<rparr>]"
    by simp
  from 1 2 a b 3 c u1 d1 d2 r1 e r2' dist f h show ?thesis by blast
qed

subsection \<open>The schema\<close>

lemma unique_keys_emails: "unique_keys init_database ''emails'' = [[''id'']]"
  by (simp add: unique_keys_def init_database_def emails_table_def groups_table_def
      email_notifications_table_def col_def primary_key_autoincrement_def unique_def
      not_null_def default_value_def)

lemma unique_keys_groups: "unique_keys init_database ''groups'' = [[''id''], [''chat_id'']]"
  by (simp add: unique_keys_def init_database_def emails_table_def groups_table_def
      email_notifications_table_def col_def primary_key_autoincrement_def unique_def
      not_null_def default_value_def)

lemma unique_keys_email_notifications:
  "unique_keys init_database ''email_notifications'' = [[''id''], [''email_id'', ''group_id'']]"
  by (simp add: unique_keys_def init_database_def emails_table_def groups_table_def
      email_notifications_table_def col_def primary_key_autoincrement_def unique_def
      not_null_def default_value_def)

lemma not_null_emails:
  "not_null_columns init_database ''emails'' =
     [''message_id'', ''email_account'', ''sender'', ''subject'', ''received_date'',
      ''email_hash'']"
  by (simp add: not_null_columns_def init_database_def emails_table_def groups_table_def
      email_notifications_table_def col_def primary_key_autoincrement_def unique_def
      not_null_def default_value_def)

lemma not_null_groups: "not_null_columns init_database ''groups'' = [''chat_id'']"
  by (simp add: not_null_columns_def init_database_def emails_table_def groups_table_def
      email_notifications_table_def col_def primary_key_autoincrement_def unique_def
      not_null_def default_value_def)

lemma sql_insert_rejects:
  assumes "key \<in> set (unique_keys sch name)" and "old \<in> set rows"
      and "key_conflict key old new"
  shows "sql_insert sch name rows new = Inl IntegrityError"
proof -
  from assms have "list_ex (\<lambda>key. list_ex (\<lambda>old. key_conflict key old new) rows)
                    (unique_keys sch name)"
    unfolding list_ex_iff by blast
  then show ?thesis by (simp add: sql_insert_def)
qed

lemma add_email_keeps_fingerprints_distinct:
  assumes "distinct (map e_email_hash (emails db))"
  shows "distinct (map e_email_hash
           (emails (fst (add_email sha256 db m acct s subj prev date now))))"
proof (cases "find (\<lambda>e. e_email_hash e = generate_email_hash sha256 m s subj) (emails db)")
  case None
  then have "\<forall>e \<in> set (emails db). e_email_hash e \<noteq> generate_email_hash sha256 m s subj"
    unfolding find_None_hash .
  then have "generate_email_hash sha256 m s subj \<notin> e_email_hash ` set (emails db)"
    by auto
  with assms show ?thesis unfolding add_email_new[OF None] by simp
next
  case (Some e)
  with assms show ?thesis unfolding add_email_existing[OF Some] by simp
qed

text \<open>
  C3, as amended. The schema of \<^verbatim>\<open>init_database\<close> declares the chat identifier of a group
  unique and the pair (message, group) of a delivery unique, next to the primary keys;
  the store rejects a row that repeats, in a stored row's non-null columns, the chat
  identifier of a group, the pair of a delivery or the rowid of a message. On the table
  of messages the rowid is the only uniqueness constraint: the fingerprint column is
  NOT NULL and has a plain index. What keeps fingerprints apart is \<^verbatim>\<open>add_email\<close>, which
  looks the fingerprint up before it inserts.
\<close>

theorem schema_uniqueness:
  "unique_keys init_database ''groups'' = [[''id''], [''chat_id'']]
   \<and> unique_keys init_database ''email_notifications'' = [[''id''], [''email_id'', ''group_id'']]
   \<and> unique_keys init_database ''emails'' = [[''id'']]
   \<and> (old \<in> set rows \<and> col_value new ''chat_id'' \<noteq> Null
        \<and> col_value old ''chat_id'' = col_value new ''chat_id''
      \<longrightarrow> sql_insert init_database ''groups'' rows new = Inl IntegrityError)
   \<and> (old \<in> set rows \<and> col_value new ''email_id'' \<noteq> Null
        \<and> col_value new ''group_id'' \<noteq> Null
        \<and> col_value old ''email_id'' = col_value new ''email_id''
        \<and> col_value old ''group_id'' = col_value new ''group_id''
      \<longrightarrow> sql_insert init_database ''email_notifications'' rows new = Inl IntegrityError)
   \<and> (old \<in> set rows \<and> col_value new ''id'' \<noteq> Null
        \<and> col_value old ''id'' = col_value new ''id''
      \<longrightarrow> sql_insert init_database ''emails'' rows new = Inl IntegrityError)
   \<and> (distinct (map e_email_hash (emails db))
      \<longrightarrow> distinct (map e_email_hash
            (emails (fst (add_email sha256 db m acct s subj prev date now)))))"
proof (intro conjI impI)
  show "distinct (map e_email_hash
            (emails (fst (add_email sha256 db m acct s subj prev date now))))"
    if "distinct (map e_email_hash (emails db))"
    using that by (rule add_email_keeps_fingerprints_distinct)
next
  show "unique_keys init_database ''groups'' = [[''id''], [''chat_id'']]"
    by (rule unique_keys_groups)
  show "unique_keys init_database ''email_notifications'' = [[''id''], [''email_id'', ''group_id'']]"
    by (rule unique_keys_email_notifications)
  show "unique_keys init_database ''emails'' = [[''id'']]"
    by (rule unique_keys_emails)
next
  assume a: "old \<in> set rows \<and> col_value new ''chat_id'' \<noteq> Null
        \<and> col_value old ''chat_id'' = col_value new ''chat_id''"
  have "[''chat_id''] \<in> set (unique_keys init_database ''groups'')"
    unfolding unique_keys_groups by simp
  moreover from a have "old \<in> set rows" by simp
  moreover from a have "key_conflict [''chat_id''] old new" by (simp add: key_conflict_def)
  ultimately show "sql_insert init_database ''groups'' rows new = Inl IntegrityError"
    by (rule sql_insert_rejects)
next
  assume a: "old \<in> set rows \<and> col_value new ''email_id'' \<noteq> Null
        \<and> col_value new ''group_id'' \<noteq> Null
        \<and> col_value old ''email_id'' = col_value new ''email_id''
        \<and> col_value old ''group_id'' = col_value new ''group_id''"
  have "[''email_id'', ''group_id''] \<in> set (unique_keys init_database ''email_notifications'')"
    unfolding unique_keys_email_notifications by simp
  moreover from a have "old \<in> set rows" by simp
  moreover from a have "key_conflict [''email_id'', ''group_id''] old new"
    by (simp add: key_conflict_def)
  ultimately show "sql_insert init_database ''email_notifications'' rows new = Inl IntegrityError"
    by (rule sql_insert_rejects)
next
  assume a: "old \<in> set rows \<and> col_value new ''id'' \<noteq> Null
        \<and> col_value old ''id'' = col_value new ''id''"
  have "[''id''] \<in> set (unique_keys init_database ''emails'')"
    unfolding unique_keys_emails by simp
  moreover from a have "old \<in> set rows" by simp
  moreover from a have "key_conflict [''id''] old new" by (simp add: key_conflict_def)
  ultimately show "sql_insert init_database ''emails'' rows new = Inl IntegrityError"
    by (rule sql_insert_rejects)
qed

theorem schema_uniqueness_witness:
  "sql_insert init_database ''groups'' [example_group_sql_row 1] (example_group_sql_row 2)
     = Inl IntegrityError
   \<and> sql_insert init_database ''email_notifications'' [example_notification_sql_row 1]
       (example_notification_sql_row 2) = Inl IntegrityError
   \<and> sql_insert init_database ''groups'' [] (example_group_sql_row 1)
       = Inr [example_group_sql_row 1]"
proof -
  have g: "example_group_sql_row 1 \<in> set [example_group_sql_row 1]
        \<and> col_value (example_group_sql_row 2) ''chat_id'' \<noteq> Null
        \<and> col_value (example_group_sql_row 1) ''chat_id''
            = col_value (example_group_sql_row 2) ''chat_id''"
    by (simp add: example_group_sql_row_def col_value_def)
  have n: "example_notification_sql_row 1 \<in> set [example_notification_sql_row 1]
        \<and> col_value (example_notification_sql_row 2) ''email_id'' \<noteq> Null
        \<and> col_value (example_notification_sql_row 2) ''group_id'' \<noteq> Null
        \<and> col_value (example_notification_sql_row 1) ''email_id''
            = col_value (example_notification_sql_row 2) ''email_id''
        \<and> col_value (example_notification_sql_row 1) ''group_id''
            = col_value (example_notification_sql_row 2) ''group_id''"
    by (simp add: example_notification_sql_row_def col_value_def)
  have 1: "sql_insert init_database ''groups'' [example_group_sql_row 1]
             (example_group_sql_row 2) = Inl IntegrityError"
    using schema_uniqueness[of "example_group_sql_row 1" "[example_group_sql_row 1]"
        "example_group_sql_row 2"] g by blast
  have 2: "sql_insert init_database ''email_notifications'' [example_notification_sql_row 1]
       (example_notification_sql_row 2) = Inl IntegrityError"
    using schema_uniqueness[of "example_notification_sql_row 1"
        "[example_notification_sql_row 1]" "example_notification_sql_row 2"] n by blast
  have 3: "sql_insert init_database ''groups'' [] (example_group_sql_row 1)
       = Inr [example_group_sql_row 1]"
    unfolding sql_insert_def unique_keys_groups not_null_groups
    by (simp add: example_group_sql_row_def col_value_def)
  from 1 2 3 show ?thesis by blast
qed

text \<open>Two rows of \<^verbatim>\<open>emails\<close> with the same fingerprint, differing in their rowid only: the
  store takes the second.\<close>

theorem schema_uniqueness_counterexample:
  "col_value (example_email_sql_row 1) ''email_hash''
     = col_value (example_email_sql_row 2) ''email_hash''
   \<and> col_value (example_email_sql_row 2) ''email_hash'' = TextV ''0f3a''
   \<and> sql_insert init_database ''emails'' [example_email_sql_row 1] (example_email_sql_row 2)
       = Inr [example_email_sql_row 1, example_email_sql_row 2]"
  unfolding sql_insert_def unique_keys_emails not_null_emails
  by (simp add: example_email_sql_row_def col_value_def key_conflict_def)

subsection \<open>The watermark\<close>

lemma fetch_new_uids:
  "map uid (fetch_new w fetch us) = filter (\<lambda>u. \<exists>raw. fetch u = Fetched raw) us"
  by (induction us) (auto split: fetch_answer.splits)

lemma connect_first_attempt:
  "answers 0 = Connected messages \<Longrightarrow>
     connect w answers = (w\<lparr>client := True, last_seen_uids := set messages\<rparr>, Inr ())"
  by (simp add: connect_def numeral_3_eq_3)

lemma new_uids_Nil:
  "(filter (\<lambda>u. u \<notin> W) messages = []) = (set messages \<subseteq> W)"
  by (auto simp: filter_empty_conv)

lemma check_connected:
  assumes "client w" and "srv_search srv = Inr messages"
  shows "check_new_emails w srv =
     (if set messages \<subseteq> last_seen_uids w then (w, [])
      else (w\<lparr>last_seen_uids := set messages\<rparr>,
            fetch_new w (srv_fetch srv)
              (remdups (filter (\<lambda>u. u \<notin> last_seen_uids w) messages))))"
  using assms by (simp add: check_new_emails_def Let_def new_uids_Nil)

lemma check_connected_emitted:
  assumes "client w" and "srv_search srv = Inr messages"
  shows "map uid (snd (check_new_emails w srv)) =
           filter (\<lambda>u. \<exists>raw. srv_fetch srv u = Fetched raw)
             (remdups (filter (\<lambda>u. u \<notin> last_seen_uids w) messages))"
proof (cases "set messages \<subseteq> last_seen_uids w")
  case True
  then have "remdups (filter (\<lambda>u. u \<notin> last_seen_uids w) messages) = []"
    by (simp add: new_uids_Nil)
  with True show ?thesis unfolding check_connected[OF assms] by simp
next
  case False
  then show ?thesis unfolding check_connected[OF assms] by (simp add: fetch_new_uids)
qed

text \<open>An identifier of the watermark that the server lists whenever it answers stays in
  the watermark, through connects and checks, and is not emitted.\<close>

lemma connect_once_keeps:
  assumes "u \<in> last_seen_uids w" and "\<forall>ms. a = Connected ms \<longrightarrow> u \<in> set ms"
  shows "u \<in> last_seen_uids (fst (connect_once w a))"
  using assms by (cases a) simp_all

lemma connect_attempts_keeps:
  assumes "\<forall>k ms. answers k = Connected ms \<longrightarrow> u \<in> set ms"
  shows "u \<in> last_seen_uids w \<Longrightarrow> u \<in> last_seen_uids (fst (connect_attempts n k w answers))"
proof (induction n arbitrary: k w)
  case 0
  then show ?case by simp
next
  case (Suc n)
  have l: "\<forall>ms. answers k = Connected ms \<longrightarrow> u \<in> set ms" using assms by blast
  from connect_once_keeps[OF Suc.prems l]
  have 1: "u \<in> last_seen_uids (fst (connect_once w (answers k)))" .
  obtain w1 r where c: "connect_once w (answers k) = (w1, r)" by (cases "connect_once w (answers k)")
  with 1 have w1: "u \<in> last_seen_uids w1" by simp
  show ?case
  proof (cases r)
    case (Inl e)
    show ?thesis
    proof (cases "e = ConnectionError")
      case True
      with c Inl Suc.IH[OF w1, of "Suc k"] show ?thesis by simp
    next
      case False
      with c Inl w1 show ?thesis by simp
    qed
  next
    case (Inr x)
    with c w1 show ?thesis by simp
  qed
qed

lemma on_error_last_seen: "last_seen_uids (on_error e w) = last_seen_uids w"
  by (simp add: on_error_def disconnect_def)

lemma check_keeps:
  assumes u: "u \<in> last_seen_uids w"
      and lc: "\<forall>k ms. srv_connect srv k = Connected ms \<longrightarrow> u \<in> set ms"
      and ls: "\<forall>ms. srv_search srv = Inr ms \<longrightarrow> u \<in> set ms"
  shows "u \<in> last_seen_uids (fst (check_new_emails w srv))"
    and "u \<notin> uid ` set (snd (check_new_emails w srv))"
proof -
  define c where "c = (if \<not> client w then connect w (srv_connect srv) else (w, Inr ()))"
  obtain w1 r where c1: "c = (w1, r)" by (cases c)
  have w1: "u \<in> last_seen_uids w1"
  proof (cases "client w")
    case True
    with c1 u show ?thesis unfolding c_def by simp
  next
    case False
    with c1 have "w1 = fst (connect_attempts 3 0 w (srv_connect srv))"
      unfolding c_def connect_def by simp
    with connect_attempts_keeps[OF lc u] show ?thesis by simp
  qed
  have e: "check_new_emails w srv =
     (case (w1, r) of
        (w1, Inl e) \<Rightarrow> (on_error e w1, [])
      | (w1, Inr u) \<Rightarrow>
          (case srv_search srv of
             Inl e \<Rightarrow> (on_error e w1, [])
           | Inr messages \<Rightarrow>
               (let new_uids = remdups (filter (\<lambda>u. u \<notin> last_seen_uids w1) messages)
                in if new_uids \<noteq> []
                   then (w1\<lparr>last_seen_uids := set messages\<rparr>,
                         fetch_new w1 (srv_fetch srv) new_uids)
                   else (w1, []))))"
    unfolding check_new_emails_def c_def[symmetric] c1 ..
  have "u \<in> last_seen_uids (fst (check_new_emails w srv))
        \<and> u \<notin> uid ` set (snd (check_new_emails w srv))"
  proof (cases r)
    case (Inl err)
    with w1 show ?thesis unfolding e by (simp add: on_error_last_seen)
  next
    case (Inr x)
    show ?thesis
    proof (cases "srv_search srv")
      case (Inl err)
      with Inr w1 show ?thesis unfolding e by (simp add: on_error_last_seen)
    next
      case s: (Inr messages)
      with ls have m: "u \<in> set messages" by blast
      have "u \<notin> set (map uid (fetch_new w1 (srv_fetch srv)
                    (remdups (filter (\<lambda>u. u \<notin> last_seen_uids w1) messages))))"
        unfolding fetch_new_uids using w1 by simp
      then have "u \<notin> uid ` set (fetch_new w1 (srv_fetch srv)
                    (remdups (filter (\<lambda>u. u \<notin> last_seen_uids w1) messages)))"
        by simp
      with Inr s w1 m show ?thesis unfolding e by (simp add: Let_def)
    qed
  qed
  then show "u \<in> last_seen_uids (fst (check_new_emails w srv))"
    and "u \<notin> uid ` set (snd (check_new_emails w srv))" by simp_all
qed

lemma run_checks_never_emits:
  assumes "\<forall>srv \<in> set srvs.
             (\<forall>k ms. srv_connect srv k = Connected ms \<longrightarrow> u \<in> set ms)
           \<and> (\<forall>ms. srv_search srv = Inr ms \<longrightarrow> u \<in> set ms)"
  shows "u \<in> last_seen_uids w \<Longrightarrow> u \<notin> uid ` set (snd (run_checks w srvs))"
  using assms
proof (induction srvs arbitrary: w)
  case Nil
  show ?case by simp
next
  case (Cons srv srvs)
  from Cons.prems(2) have lc: "\<forall>k ms. srv_connect srv k = Connected ms \<longrightarrow> u \<in> set ms"
    and ls: "\<forall>ms. srv_search srv = Inr ms \<longrightarrow> u \<in> set ms"
    and rest: "\<forall>srv \<in> set srvs.
             (\<forall>k ms. srv_connect srv k = Connected ms \<longrightarrow> u \<in> set ms)
           \<and> (\<forall>ms. srv_search srv = Inr ms \<longrightarrow> u \<in> set ms)"
    by simp_all
  obtain w1 emitted where c: "check_new_emails w srv = (w1, emitted)"
    by (cases "check_new_emails w srv")
  obtain w2 later where r: "run_checks w1 srvs = (w2, later)"
    by (cases "run_checks w1 srvs")
  from check_keeps[OF Cons.prems(1) lc ls] c
  have w1: "u \<in> last_seen_uids w1" and e: "u \<notin> uid ` set emitted" by simp_all
  from Cons.IH[OF w1 rest] r have "u \<notin> uid ` set later" by simp
  with e c r show ?case by (simp add: image_Un)
qed

lemma connect_once_success:
  assumes "snd (connect_once w a) = Inr ()"
  shows "\<exists>ms. a = Connected ms \<and> connect_once w a = (w\<lparr>client := True, last_seen_uids := set ms\<rparr>, Inr ())"
  using assms by (cases a) simp_all

lemma connect_attempts_success:
  "snd (connect_attempts n k w answers) = Inr () \<Longrightarrow>
     \<exists>j ms. k \<le> j \<and> j < k + n \<and> answers j = Connected ms
          \<and> last_seen_uids (fst (connect_attempts n k w answers)) = set ms
          \<and> client (fst (connect_attempts n k w answers))"
proof (induction n arbitrary: k w)
  case 0
  then show ?case by simp
next
  case (Suc n)
  obtain w1 r where c: "connect_once w (answers k) = (w1, r)"
    by (cases "connect_once w (answers k)")
  show ?case
  proof (cases r)
    case (Inr x)
    with c have "snd (connect_once w (answers k)) = Inr ()" by simp
    from connect_once_success[OF this] obtain ms where
      "answers k = Connected ms"
      "connect_once w (answers k) = (w\<lparr>client := True, last_seen_uids := set ms\<rparr>, Inr ())"
      by blast
    then have "k \<le> k \<and> k < k + Suc n \<and> answers k = Connected ms
          \<and> last_seen_uids (fst (connect_attempts (Suc n) k w answers)) = set ms
          \<and> client (fst (connect_attempts (Suc n) k w answers))"
      by simp
    then show ?thesis by blast
  next
    case (Inl e)
    show ?thesis
    proof (cases "e = ConnectionError")
      case True
      with c Inl have e: "connect_attempts (Suc n) k w answers = connect_attempts n (Suc k) w1 answers"
        by simp
      with Suc.prems have "snd (connect_attempts n (Suc k) w1 answers) = Inr ()" by simp
      from Suc.IH[OF this] obtain j ms where
        "Suc k \<le> j" "j < Suc k + n" "answers j = Connected ms"
        "last_seen_uids (fst (connect_attempts n (Suc k) w1 answers)) = set ms"
        "client (fst (connect_attempts n (Suc k) w1 answers))"
        by blast
      then have "k \<le> j \<and> j < k + Suc n \<and> answers j = Connected ms
          \<and> last_seen_uids (fst (connect_attempts (Suc n) k w answers)) = set ms
          \<and> client (fst (connect_attempts (Suc n) k w answers))"
        unfolding e by simp
      then show ?thesis by blast
    next
      case False
      with c Inl Suc.prems show ?thesis by simp
    qed
  qed
qed

lemma connect_success:
  assumes "snd (connect w answers) = Inr ()"
  shows "\<exists>j ms. j < 3 \<and> answers j = Connected ms
          \<and> last_seen_uids (fst (connect w answers)) = set ms
          \<and> client (fst (connect w answers))"
  using connect_attempts_success[OF assms[unfolded connect_def]]
  unfolding connect_def by auto

lemma check_reconnect:
  assumes "\<not> client w" and "srv_connect srv 0 = Connected connect_time"
  shows "check_new_emails w srv =
           check_new_emails (w\<lparr>client := True, last_seen_uids := set connect_time\<rparr>) srv"
  using assms by (simp add: check_new_emails_def connect_first_attempt)

text \<open>
  C4, as amended. Watermark correctness. A connect that succeeds, at its first attempt
  or after retries, makes the identifiers the server lists to that attempt the watermark;
  a check by a watcher without a client connects first and goes on from that watermark.
  A check by a connected watcher
  whose search succeeds emits, once each, exactly the identifiers that are listed, are
  not in the watermark and are fetched: an identifier whose fetch raises, or that the
  response lacks, is left out and the others are still emitted, so with every fetch
  succeeding the emitted identifiers are the set difference. After the check the
  watermark is the current listing when the check found a new identifier, and is
  unchanged when it found none. An identifier of the watermark that the server lists in
  every answer is never emitted, whatever the checks, failures and reconnects.
\<close>

theorem watermark_correctness:
  "(answers 0 = Connected connect_time
      \<longrightarrow> connect w answers =
            (w\<lparr>client := True, last_seen_uids := set connect_time\<rparr>, Inr ()))
   \<and> (snd (connect w answers) = Inr ()
      \<longrightarrow> (\<exists>j ms. j < 3 \<and> answers j = Connected ms
              \<and> last_seen_uids (fst (connect w answers)) = set ms
              \<and> client (fst (connect w answers))))
   \<and> (\<not> client w \<and> srv_connect srv 0 = Connected connect_time
      \<longrightarrow> check_new_emails w srv =
            check_new_emails (w\<lparr>client := True, last_seen_uids := set connect_time\<rparr>) srv)
   \<and> (client w \<and> srv_search srv = Inr messages
      \<longrightarrow> uid ` set (snd (check_new_emails w srv)) =
            {u \<in> set messages - last_seen_uids w. \<exists>raw. srv_fetch srv u = Fetched raw}
        \<and> distinct (map uid (snd (check_new_emails w srv)))
        \<and> ((\<forall>u \<in> set messages - last_seen_uids w. \<exists>raw. srv_fetch srv u = Fetched raw)
            \<longrightarrow> uid ` set (snd (check_new_emails w srv)) = set messages - last_seen_uids w)
        \<and> last_seen_uids (fst (check_new_emails w srv)) =
            (if set messages \<subseteq> last_seen_uids w then last_seen_uids w else set messages)
        \<and> client (fst (check_new_emails w srv)))
   \<and> (u \<in> last_seen_uids w
        \<and> (\<forall>srv \<in> set srvs.
              (\<forall>k ms. srv_connect srv k = Connected ms \<longrightarrow> u \<in> set ms)
            \<and> (\<forall>ms. srv_search srv = Inr ms \<longrightarrow> u \<in> set ms))
      \<longrightarrow> u \<notin> uid ` set (snd (run_checks w srvs)))"
proof (intro conjI impI)
  show "connect w answers = (w\<lparr>client := True, last_seen_uids := set connect_time\<rparr>, Inr ())"
    if "answers 0 = Connected connect_time"
    using that by (rule connect_first_attempt)
  show "\<exists>j ms. j < 3 \<and> answers j = Connected ms
              \<and> last_seen_uids (fst (connect w answers)) = set ms
              \<and> client (fst (connect w answers))"
    if "snd (connect w answers) = Inr ()"
    using that by (rule connect_success)
  show "check_new_emails w srv =
            check_new_emails (w\<lparr>client := True, last_seen_uids := set connect_time\<rparr>) srv"
    if "\<not> client w \<and> srv_connect srv 0 = Connected connect_time"
  proof -
    from that have 1: "\<not> client w" and 2: "srv_connect srv 0 = Connected connect_time"
      by simp_all
    from 1 2 show ?thesis by (rule check_reconnect)
  qed
next
  assume a: "client w \<and> srv_search srv = Inr messages"
  then have c: "client w" and s: "srv_search srv = Inr messages" by simp_all
  have m: "map uid (snd (check_new_emails w srv)) =
           filter (\<lambda>u. \<exists>raw. srv_fetch srv u = Fetched raw)
             (remdups (filter (\<lambda>u. u \<notin> last_seen_uids w) messages))"
    using c s by (rule check_connected_emitted)
  have "uid ` set (snd (check_new_emails w srv)) = set (map uid (snd (check_new_emails w srv)))"
    by simp
  also have "\<dots> = {u \<in> set messages - last_seen_uids w. \<exists>raw. srv_fetch srv u = Fetched raw}"
    unfolding m by auto
  finally show e: "uid ` set (snd (check_new_emails w srv)) =
            {u \<in> set messages - last_seen_uids w. \<exists>raw. srv_fetch srv u = Fetched raw}" .
  show "distinct (map uid (snd (check_new_emails w srv)))"
    unfolding m by simp
  show "uid ` set (snd (check_new_emails w srv)) = set messages - last_seen_uids w"
    if "\<forall>u \<in> set messages - last_seen_uids w. \<exists>raw. srv_fetch srv u = Fetched raw"
    unfolding e using that by blast
  show "last_seen_uids (fst (check_new_emails w srv)) =
            (if set messages \<subseteq> last_seen_uids w then last_seen_uids w else set messages)"
    unfolding check_connected[OF c s] by simp
  show "client (fst (check_new_emails w srv))"
    unfolding check_connected[OF c s] using c by simp
next
  assume a: "u \<in> last_seen_uids w
        \<and> (\<forall>srv \<in> set srvs.
              (\<forall>k ms. srv_connect srv k = Connected ms \<longrightarrow> u \<in> set ms)
            \<and> (\<forall>ms. srv_search srv = Inr ms \<longrightarrow> u \<in> set ms))"
  then have 1: "\<forall>srv \<in> set srvs.
              (\<forall>k ms. srv_connect srv k = Connected ms \<longrightarrow> u \<in> set ms)
            \<and> (\<forall>ms. srv_search srv = Inr ms \<longrightarrow> u \<in> set ms)"
    and 2: "u \<in> last_seen_uids w" by simp_all
  from 1 2 show "u \<notin> uid ` set (snd (run_checks w srvs))"
    by (rule run_checks_never_emits)
qed

text \<open>Connected with the messages 1 and 2 in the folder; the next check finds 1 to 5, of
  which 4 cannot be fetched: 3 and 5 are emitted, and the watermark becomes 1 to 5.\<close>

theorem watermark_correctness_witness:
  "srv_connect (example_server [1, 2] example_fetch) 0 = Connected [1, 2]
   \<and> connect example_watcher (srv_connect (example_server [1, 2] example_fetch)) =
       (example_watcher\<lparr>client := True, last_seen_uids := {1, 2}\<rparr>, Inr ())
   \<and> client (example_watcher\<lparr>client := True, last_seen_uids := {1, 2}\<rparr>)
   \<and> srv_search (example_server [1, 2, 3, 4, 5] example_fetch) = Inr [1, 2, 3, 4, 5]
   \<and> uid ` set (snd (check_new_emails
                        (example_watcher\<lparr>client := True, last_seen_uids := {1, 2}\<rparr>)
                        (example_server [1, 2, 3, 4, 5] example_fetch))) = {3, 5}
   \<and> last_seen_uids (fst (check_new_emails
                        (example_watcher\<lparr>client := True, last_seen_uids := {1, 2}\<rparr>)
                        (example_server [1, 2, 3, 4, 5] example_fetch))) = {1, 2, 3, 4, 5}"
proof -
  let ?w = "example_watcher\<lparr>client := True, last_seen_uids := {1, 2}\<rparr>"
  let ?srv = "example_server [1, 2, 3, 4, 5] example_fetch"
  have 1: "srv_connect (example_server [1, 2] example_fetch) 0 = Connected [1, 2]"
    by (simp add: example_server_def)
  have 2: "client ?w \<and> srv_search ?srv = Inr [1, 2, 3, 4, 5]"
    by (simp add: example_server_def)
  from watermark_correctness[where answers="srv_connect (example_server [1, 2] example_fetch)"
      and connect_time="[1, 2]" and w=example_watcher] 1
  have 3: "connect example_watcher (srv_connect (example_server [1, 2] example_fetch)) =
       (example_watcher\<lparr>client := True, last_seen_uids := {1, 2}\<rparr>, Inr ())"
    by simp
  from watermark_correctness[where w="?w" and srv="?srv" and messages="[1, 2, 3, 4, 5]"] 2
  have 4: "uid ` set (snd (check_new_emails ?w ?srv)) =
            {u \<in> set [1, 2, 3, 4, 5] - last_seen_uids ?w.
               \<exists>raw. srv_fetch ?srv u = Fetched raw}"
    and 5: "last_seen_uids (fst (check_new_emails ?w ?srv)) =
            (if set [1, 2, 3, 4, 5] \<subseteq> last_seen_uids ?w then last_seen_uids ?w
             else set [1, 2, 3, 4, 5])"
    by blast+
  have "{u \<in> set [1, 2, 3, 4, 5] - last_seen_uids ?w. \<exists>raw. srv_fetch ?srv u = Fetched raw}
          = {3, 5}"
    by (auto simp: example_server_def example_fetch_def)
  with 4 have 6: "uid ` set (snd (check_new_emails ?w ?srv)) = {3, 5}" by simp
  from 5 have 7: "last_seen_uids (fst (check_new_emails ?w ?srv)) = {1, 2, 3, 4, 5}"
    by simp
  from 1 2 3 6 7 show ?thesis by blast
qed

text \<open>
  The watermark is assigned only when a check finds a new identifier: with 1 and 2 seen
  and only 1 left in the folder, the watermark stays at 1 and 2. And the assignment
  replaces the watermark: once 2 has left the listing and a check has found 3, the
  watermark is 1 and 3, and a later listing of 1, 2 and 3 emits 2, which was present at
  connect time.
\<close>

theorem watermark_counterexample:
  "connect example_watcher (srv_connect (example_server [1, 2] example_fetch)) =
     (example_watcher\<lparr>client := True, last_seen_uids := {1, 2}\<rparr>, Inr ())
   \<and> last_seen_uids (fst (check_new_emails
                            (example_watcher\<lparr>client := True, last_seen_uids := {1, 2}\<rparr>)
                            (example_server [1] example_fetch))) = {1, 2}
   \<and> set [1] \<noteq> {1, 2::int}
   \<and> map uid (snd (run_checks (example_watcher\<lparr>client := True, last_seen_uids := {1, 2}\<rparr>)
                      [example_server [1, 3] example_fetch,
                       example_server [1, 2, 3] example_fetch])) = [3, 2]"
proof (intro conjI)
  show "connect example_watcher (srv_connect (example_server [1, 2] example_fetch)) =
     (example_watcher\<lparr>client := True, last_seen_uids := {1, 2}\<rparr>, Inr ())"
    by (simp add: connect_first_attempt example_server_def)
  show "last_seen_uids (fst (check_new_emails
                            (example_watcher\<lparr>client := True, last_seen_uids := {1, 2}\<rparr>)
                            (example_server [1] example_fetch))) = {1, 2}"
    by (simp add: check_new_emails_def example_server_def Let_def)
  show "set [1] \<noteq> {1, 2::int}" by auto
  show "map uid (snd (run_checks (example_watcher\<lparr>client := True, last_seen_uids := {1, 2}\<rparr>)
                      [example_server [1, 3] example_fetch,
                       example_server [1, 2, 3] example_fetch])) = [3, 2]"
    by (simp add: check_new_emails_def example_server_def example_fetch_def Let_def)
qed

end
